theory Spec2Isabelle
  imports Complex_Main "HOL-Library.AList"
begin

section \<open>The pyOptSparse driver of OpenMDAO: data model\<close>

text \<open>
  The development embeds \<^verbatim>\<open>openmdao/drivers/pyoptsparse_driver.py\<close>. The driver is a
  Python object whose methods mutate its attributes, call into the model (the
  \<^verbatim>\<open>Problem\<close> and its root system) and into the optimizer library, and may be interrupted
  by exceptions. Attributes and the model's variable values are fields of one state record
  that every operation takes and returns; a raised exception is a result value, returned
  together with the state reached when it was raised; every call that leaves the driver
  (model solve, gradient, parameter write, recorder, optimizer registration, printing) is
  appended to a trace, at the moment of the call.
\<close>

type_synonym name = string
type_synonym vec = "real list"
type_synonym jac = "real list list"

text \<open>
  Exceptions. \<^verbatim>\<open>KeyboardInterrupt\<close> and \<^verbatim>\<open>SystemExit\<close> derive from
  \<^verbatim>\<open>BaseException\<close> only; every other constructor is a subclass of \<^verbatim>\<open>Exception\<close>.
  \<open>OtherException\<close> stands for whatever else a collaborator raises (a diverged solve, a
  numeric error in an expression).
\<close>

datatype py_exc =
    KeyError name
  | AttributeError string
  | TypeError string
  | ImportError string
  | OtherException string
  | KeyboardInterrupt
  | SystemExit

fun is_Exception :: "py_exc \<Rightarrow> bool" where
  "is_Exception KeyboardInterrupt = False"
| "is_Exception SystemExit = False"
| "is_Exception _ = True"

text \<open>\<^verbatim>\<open>str(msg)\<close> of an exception; a \<^verbatim>\<open>KeyError\<close> prints its key quoted.\<close>

fun exc_str :: "py_exc \<Rightarrow> string" where
  "exc_str (KeyError k) = CHR 0x27 # k @ [CHR 0x27]"
| "exc_str (AttributeError m) = m"
| "exc_str (TypeError m) = m"
| "exc_str (ImportError m) = m"
| "exc_str (OtherException m) = m"
| "exc_str KeyboardInterrupt = []"
| "exc_str SystemExit = []"

datatype 'a res = Ok 'a | Raise py_exc

text \<open>
  Modelled from the spec: the iteration metadata of \<^verbatim>\<open>openmdao.util.record_util\<close>
  (\<^verbatim>\<open>create_local_meta\<close>, \<^verbatim>\<open>update_local_meta\<close>), which is not among the sources: a
  record-keeping token (the name the metadata was created for) and the iteration
  coordinate, which \<^verbatim>\<open>update_local_meta\<close> overwrites with the tuple it is given.
\<close>

record local_meta =
  meta_name :: string
  coord :: "int list"

definition create_local_meta :: "string \<Rightarrow> local_meta" where
  "create_local_meta nm = \<lparr>meta_name = nm, coord = []\<rparr>"

definition update_local_meta :: "local_meta \<Rightarrow> int list \<Rightarrow> local_meta" where
  "update_local_meta m it = m\<lparr>coord := it\<rparr>"

text \<open>
  Declarations of the model: design variables and constraints with the metadata that
  \<^verbatim>\<open>run\<close> reads (\<^verbatim>\<open>size\<close>, \<^verbatim>\<open>low\<close>, \<^verbatim>\<open>high\<close>; \<^verbatim>\<open>size\<close>, \<^verbatim>\<open>equals\<close>, \<^verbatim>\<open>lower\<close>,
  \<^verbatim>\<open>upper\<close>, \<^verbatim>\<open>linear\<close>). \<open>c_kind\<close> is the kind of the constraint, equality or
  inequality, on which \<^verbatim>\<open>get_constraints\<close> filters.
\<close>

record param_meta =
  p_size :: nat
  p_low :: real
  p_high :: real

datatype ctype = Eq | Ineq

record con_meta =
  c_kind :: ctype
  c_size :: nat
  c_equals :: "real option"
  c_lower :: "real option"
  c_upper :: "real option"
  c_linear :: bool

text \<open>
  A response handed to \<^verbatim>\<open>calc_gradient\<close> is an identifier in the gradient callback
  (\<^verbatim>\<open>self.quantities\<close>) and a value in \<^verbatim>\<open>run\<close> (\<^verbatim>\<open>get_constraints(...).values()\<close>).
\<close>

datatype resp = RName name | RValue vec

type_synonym dv_dict = "(name \<times> vec) list"
type_synonym func_dict = "(name \<times> vec) list"
type_synonym sens_dict = "(name \<times> (name \<times> jac) list) list"

record solution =
  getDVs :: dv_dict
  optInform :: "(string \<times> int) list"

datatype sens_mode = SensFD real | SensGradfunc

datatype event =
    SolveNonlinear "local_meta option"
  | SetParam name vec
  | CalcGradient "name list" "resp list" string
  | RecordIter "local_meta option"
  | NewOptimization string
  | AddVarGroup name nat vec real real
  | FinalizeDesignVariables
  | AddObj name
  | AddConGroup name nat "real option" "real option" bool "name set" "(name \<times> jac) list option"
  | SetOption string string
  | CallOptimizer sens_mode
  | Print string
  | PrintExc py_exc
  | PrintSolution solution

text \<open>The values of the model's variables, by identifier.\<close>

type_synonym model = "name \<Rightarrow> vec"

datatype request = Evaluate dv_dict | Gradient dv_dict func_dict

text \<open>
  The collaborators, which the driver only calls. The declarations (\<open>params\<close>,
  \<open>objectives\<close>, \<open>constraints\<close>, \<open>relevant\<close>) are fixed for a run; the behaviours are
  arbitrary functions: a solve or a parameter write returns the model it leaves behind and
  the exception it raised, if any. \<open>pyoptsparse_exports\<close> lists the optimizer classes that
  \<^verbatim>\<open>from pyoptsparse import ...\<close> finds. The optimizer engine is opaque: \<open>engine_script\<close>
  is the sequence of callback invocations it makes during one call and \<open>engine_result\<close>
  the solution it returns (or the exception it raises). Whatever an engine decides from
  the values the callbacks return, one call of it makes some finite sequence of
  invocations, so a property of every script and every result is a property of every
  engine that returns.
\<close>

record env =
  params :: "(name \<times> param_meta) list"
  objectives :: "name list"
  constraints :: "(name \<times> con_meta) list"
  relevant :: "name \<Rightarrow> name set option"
  fd_step_size :: real
  solve_nonlinear :: "local_meta option \<Rightarrow> model \<Rightarrow> py_exc option \<times> model"
  set_param :: "name \<Rightarrow> vec \<Rightarrow> model \<Rightarrow> py_exc option \<times> model"
  calc_gradient :: "name list \<Rightarrow> resp list \<Rightarrow> model \<Rightarrow> py_exc + sens_dict"
  record_call :: "local_meta option \<Rightarrow> model \<Rightarrow> py_exc option"
  pyoptsparse_exports :: "string list"
  engine_script :: "request list"
  engine_result :: "py_exc + solution"

datatype problem_ref = Problem

record driver_options =
  optimizer :: string
  title :: string
  print_results :: bool
  pyopt_diff :: bool

text \<open>
  The driver's attributes, the model and the trace. \<open>iter_count\<close> and \<open>param_list\<close> are
  \<open>None\<close> while the attribute does not exist (\<^verbatim>\<open>__init__\<close> does not create them);
  \<open>p_problem\<close> is \<^verbatim>\<open>self._problem\<close>.
\<close>

record state =
  options :: driver_options
  opt_settings :: "(string \<times> string) list"
  pyopt_solution :: "solution option"
  lin_jacs :: sens_dict
  quantities :: "name list"
  metadata :: "local_meta option"
  exit_flag :: int
  p_problem :: "problem_ref option"
  iter_count :: "int option"
  param_list :: "name list option"
  model :: model
  trace :: "event list"

definition init_driver :: "model \<Rightarrow> state" where
  "init_driver m =
     \<lparr>options = \<lparr>optimizer = ''SNOPT'', title = ''Optimization using pyOpt_sparse'',
                  print_results = True, pyopt_diff = False\<rparr>,
      opt_settings = [], pyopt_solution = None, lin_jacs = [], quantities = [],
      metadata = None, exit_flag = 0, p_problem = None, iter_count = None,
      param_list = None, model = m, trace = []\<rparr>"

section \<open>Statements that may raise\<close>

type_synonym 'a M = "state \<Rightarrow> 'a res \<times> state"

definition ret :: "'a \<Rightarrow> 'a M" where
  "ret x = (\<lambda>s. (Ok x, s))"

definition raise :: "py_exc \<Rightarrow> 'a M" where
  "raise e = (\<lambda>s. (Raise e, s))"

definition bnd :: "'a M \<Rightarrow> ('a \<Rightarrow> 'b M) \<Rightarrow> 'b M" where
  "bnd m f = (\<lambda>s. case m s of (Ok x, s') \<Rightarrow> f x s' | (Raise e, s') \<Rightarrow> (Raise e, s'))"

definition thn :: "unit M \<Rightarrow> 'b M \<Rightarrow> 'b M" where
  "thn m n = bnd m (\<lambda>_. n)"

definition emit :: "event \<Rightarrow> unit M" where
  "emit ev = (\<lambda>s. (Ok (), s\<lparr>trace := trace s @ [ev]\<rparr>))"

text \<open>A \<^verbatim>\<open>for\<close> loop: the first iteration that raises ends it.\<close>

fun for_each :: "'a list \<Rightarrow> ('a \<Rightarrow> unit M) \<Rightarrow> unit M" where
  "for_each [] f = ret ()"
| "for_each (x # xs) f = thn (f x) (for_each xs f)"

text \<open>\<^verbatim>\<open>d[k]\<close> on a dictionary.\<close>

definition dict_get :: "(name \<times> 'a) list \<Rightarrow> name \<Rightarrow> 'a M" where
  "dict_get d k = (case map_of d k of None \<Rightarrow> raise (KeyError k) | Some v \<Rightarrow> ret v)"

text \<open>Calls into the model: the call is traced, then the model decides.\<close>

definition call_solve_nonlinear :: "env \<Rightarrow> unit M" where
  "call_solve_nonlinear env = (\<lambda>s.
     let s1 = s\<lparr>trace := trace s @ [SolveNonlinear (metadata s)]\<rparr> in
     case solve_nonlinear env (metadata s) (model s) of
       (None, m') \<Rightarrow> (Ok (), s1\<lparr>model := m'\<rparr>)
     | (Some e, m') \<Rightarrow> (Raise e, s1\<lparr>model := m'\<rparr>))"

definition call_set_param :: "env \<Rightarrow> name \<Rightarrow> vec \<Rightarrow> unit M" where
  "call_set_param env nm v = (\<lambda>s.
     let s1 = s\<lparr>trace := trace s @ [SetParam nm v]\<rparr> in
     case set_param env nm v (model s) of
       (None, m') \<Rightarrow> (Ok (), s1\<lparr>model := m'\<rparr>)
     | (Some e, m') \<Rightarrow> (Raise e, s1\<lparr>model := m'\<rparr>))"

definition call_calc_gradient :: "env \<Rightarrow> name list \<Rightarrow> resp list \<Rightarrow> sens_dict M" where
  "call_calc_gradient env ps rs = (\<lambda>s.
     let s1 = s\<lparr>trace := trace s @ [CalcGradient ps rs ''dict'']\<rparr> in
     case calc_gradient env ps rs (model s) of
       Inl e \<Rightarrow> (Raise e, s1)
     | Inr J \<Rightarrow> (Ok J, s1))"

definition call_record :: "env \<Rightarrow> unit M" where
  "call_record env = (\<lambda>s.
     let s1 = s\<lparr>trace := trace s @ [RecordIter (metadata s)]\<rparr> in
     case record_call env (metadata s) (model s) of
       None \<Rightarrow> (Ok (), s1)
     | Some e \<Rightarrow> (Raise e, s1))"

text \<open>
  Modelled from the spec: \<^verbatim>\<open>get_objectives\<close>, \<^verbatim>\<open>get_constraints\<close> and
  \<^verbatim>\<open>get_param_metadata\<close> of the \<^verbatim>\<open>Driver\<close> base class, which is not among the sources:
  ordered mappings from the declared identifiers, in declaration order, to their current
  values; \<^verbatim>\<open>get_constraints\<close> filters by kind and by linearity, and a filter that is not
  given (\<open>None\<close>) lets every constraint through.
\<close>

definition get_objectives :: "env \<Rightarrow> model \<Rightarrow> (name \<times> vec) list" where
  "get_objectives env m = map (\<lambda>n. (n, m n)) (objectives env)"

definition con_selected :: "ctype option \<Rightarrow> bool option \<Rightarrow> con_meta \<Rightarrow> bool" where
  "con_selected ct lin meta =
     ((case ct of None \<Rightarrow> True | Some k \<Rightarrow> c_kind meta = k) \<and>
      (case lin of None \<Rightarrow> True | Some l \<Rightarrow> c_linear meta = l))"

definition get_constraints :: "env \<Rightarrow> ctype option \<Rightarrow> bool option \<Rightarrow> model \<Rightarrow> (name \<times> vec) list" where
  "get_constraints env ct lin m =
     map (\<lambda>(n, meta). (n, m n)) (filter (\<lambda>(n, meta). con_selected ct lin meta) (constraints env))"

section \<open>The callbacks\<close>

text \<open>
  The handler of both callbacks (\<^verbatim>\<open>except Exception as msg:\<close>): the message, a rule of
  seventy \<^verbatim>\<open>=\<close>, the traceback, and the rule again.
\<close>

definition print_exception :: "py_exc \<Rightarrow> state \<Rightarrow> state" where
  "print_exception e s =
     s\<lparr>trace := trace s @ [Print (''Exception: '' @ exc_str e), Print (replicate 70 CHR ''=''),
                            PrintExc e, Print (replicate 70 CHR ''='')]\<rparr>"

subsection \<open>\<^verbatim>\<open>objfunc\<close>\<close>

text \<open>Lines 251--252: \<^verbatim>\<open>for name in self.param_list: self.set_param(name, dv_dict[name])\<close>.\<close>

definition apply_dvs :: "env \<Rightarrow> dv_dict \<Rightarrow> unit M" where
  "apply_dvs env dv = (\<lambda>s.
     case param_list s of
       None \<Rightarrow> (Raise (AttributeError ''param_list''), s)
     | Some pl \<Rightarrow> for_each pl (\<lambda>nm. bnd (dict_get dv nm) (call_set_param env nm)) s)"

text \<open>Line 258: \<^verbatim>\<open>self.iter_count += 1\<close>.\<close>

definition advance_iter :: "unit M" where
  "advance_iter = (\<lambda>s.
     case iter_count s of
       None \<Rightarrow> (Raise (AttributeError ''iter_count''), s)
     | Some n \<Rightarrow> (Ok (), s\<lparr>iter_count := Some (n + 1)\<rparr>))"

text \<open>Lines 99 and 259: \<^verbatim>\<open>update_local_meta(self.metadata, (self.iter_count,))\<close>; the
  metadata dictionary is updated in place, which \<^verbatim>\<open>None\<close> does not support.\<close>

definition refresh_meta :: "unit M" where
  "refresh_meta = (\<lambda>s.
     case iter_count s of
       None \<Rightarrow> (Raise (AttributeError ''iter_count''), s)
     | Some n \<Rightarrow>
         (case metadata s of
            None \<Rightarrow> (Raise (TypeError ''NoneType''), s)
          | Some md \<Rightarrow> (Ok (), s\<lparr>metadata := Some (update_local_meta md [n])\<rparr>)))"

text \<open>Lines 264--283: objectives first, then all constraints, each by \<^verbatim>\<open>func_dict[name] = ...\<close>.\<close>

definition harvest :: "env \<Rightarrow> model \<Rightarrow> func_dict" where
  "harvest env m =
     foldl (\<lambda>fd (n, v). AList.update n v fd) [] (get_objectives env m @ get_constraints env None None m)"

text \<open>
  The body of the \<^verbatim>\<open>try\<close> (lines 251--293), with \<^verbatim>\<open>func_dict\<close> as it stands when the body
  ends or raises: still empty until the solve has returned. The statements before the
  \<^verbatim>\<open>try\<close> (lines 242--248) initialise \<^verbatim>\<open>fail\<close> and \<^verbatim>\<open>func_dict\<close> and read the
  metadata, the root system and its communicator into local names; \<^verbatim>\<open>self.root\<close> and
  \<^verbatim>\<open>problem.root\<close> are the one model of the state.
\<close>

definition objfunc_body :: "env \<Rightarrow> dv_dict \<Rightarrow> state \<Rightarrow> (unit res \<times> func_dict) \<times> state" where
  "objfunc_body env dv s =
     (case thn (apply_dvs env dv) (thn advance_iter (thn refresh_meta (call_solve_nonlinear env))) s of
        (Raise e, s1) \<Rightarrow> ((Raise e, []), s1)
      | (Ok _, s1) \<Rightarrow>
          (let fd = harvest env (model s1) in
           case call_record env s1 of
             (Raise e, s2) \<Rightarrow> ((Raise e, fd), s2)
           | (Ok _, s2) \<Rightarrow> ((Ok (), fd), s2)))"

definition objfunc :: "env \<Rightarrow> dv_dict \<Rightarrow> (func_dict \<times> int) M" where
  "objfunc env dv s =
     (case objfunc_body env dv s of
        ((Ok _, fd), s') \<Rightarrow> (Ok (fd, 0), s')
      | ((Raise e, fd), s') \<Rightarrow>
          if is_Exception e then (Ok (fd, 1), print_exception e s') else (Raise e, s'))"

subsection \<open>\<^verbatim>\<open>gradfunc\<close>\<close>

text \<open>
  The body of the \<^verbatim>\<open>try\<close> (lines 335--341). The attribute \<^verbatim>\<open>calc_gradient\<close> is looked up on
  \<^verbatim>\<open>self._problem\<close> before the arguments are evaluated; \<^verbatim>\<open>func_dict\<close> is not read.
\<close>

definition gradfunc_body :: "env \<Rightarrow> dv_dict \<Rightarrow> func_dict \<Rightarrow> sens_dict M" where
  "gradfunc_body env dv fd = (\<lambda>s.
     case p_problem s of
       None \<Rightarrow> (Raise (AttributeError ''calc_gradient''), s)
     | Some _ \<Rightarrow> call_calc_gradient env (map fst dv) (map RName (quantities s)) s)"

definition gradfunc :: "env \<Rightarrow> dv_dict \<Rightarrow> func_dict \<Rightarrow> (sens_dict \<times> int) M" where
  "gradfunc env dv fd s =
     (case gradfunc_body env dv fd s of
        (Ok J, s') \<Rightarrow> (Ok (J, 0), s')
      | (Raise e, s') \<Rightarrow>
          if is_Exception e then (Ok ([], 1), print_exception e s') else (Raise e, s'))"

section \<open>\<^verbatim>\<open>run\<close>\<close>

definition modify :: "(state \<Rightarrow> state) \<Rightarrow> unit M" where
  "modify f = (\<lambda>s. (Ok (), f s))"

definition get_st :: "(state \<Rightarrow> 'a) \<Rightarrow> 'a M" where
  "get_st f = (\<lambda>s. (Ok (f s), s))"

text \<open>Lines 93--102: the solution is cleared, the metadata and the counter are created, the
  model is solved at the initial point.\<close>

definition run_initial :: "env \<Rightarrow> unit M" where
  "run_initial env =
     thn (modify (\<lambda>s. s\<lparr>pyopt_solution := None\<rparr>))
    (thn (modify (\<lambda>s. s\<lparr>metadata := Some (create_local_meta (optimizer (options s)))\<rparr>))
    (thn (modify (\<lambda>s. s\<lparr>iter_count := Some 0\<rparr>))
    (thn refresh_meta
         (call_solve_nonlinear env))))"

text \<open>Lines 106--115: every design variable is registered with its size, its current value
  and its bounds; \<^verbatim>\<open>param_vals\<close> is read once, before the loop.\<close>

definition add_params :: "env \<Rightarrow> unit M" where
  "add_params env =
     thn (modify (\<lambda>s. s\<lparr>param_list := Some (map fst (params env))\<rparr>))
    (bnd (get_st model) (\<lambda>param_vals.
     thn (for_each (params env) (\<lambda>(nm, meta).
            emit (AddVarGroup nm (p_size meta) (param_vals nm) (p_low meta) (p_high meta))))
         (emit FinalizeDesignVariables)))"

text \<open>Lines 117--121.\<close>

definition add_objectives :: "env \<Rightarrow> unit M" where
  "add_objectives env =
     bnd (get_st (\<lambda>s. get_objectives env (model s))) (\<lambda>objs.
     thn (modify (\<lambda>s. s\<lparr>quantities := map fst objs\<rparr>))
         (for_each (map fst objs) (\<lambda>nm. emit (AddObj nm))))"

text \<open>Lines 123--127: \<^verbatim>\<open>lcons\<close> is the list of the linear constraints' values.\<close>

definition linear_gradients :: "env \<Rightarrow> name list \<Rightarrow> unit M" where
  "linear_gradients env pl =
     bnd (get_st (\<lambda>s. map snd (get_constraints env None (Some True) (model s)))) (\<lambda>lcons.
     if length lcons > 0 then
       bnd (call_calc_gradient env pl (map RValue lcons)) (\<lambda>J. modify (\<lambda>s. s\<lparr>lin_jacs := J\<rparr>))
     else ret ())"

text \<open>Lines 135--148, one pass of the loop over the equality constraints.\<close>

definition add_eq_con :: "env \<Rightarrow> name list \<Rightarrow> name \<Rightarrow> unit M" where
  "add_eq_con env pl nm =
     bnd (dict_get (constraints env) nm) (\<lambda>meta.
     bnd (case relevant env nm of None \<Rightarrow> raise (KeyError nm) | Some r \<Rightarrow> ret r) (\<lambda>r.
       if c_linear meta then
         bnd (get_st lin_jacs) (\<lambda>lj. bnd (dict_get lj nm) (\<lambda>j.
           emit (AddConGroup nm (c_size meta) (c_equals meta) (c_equals meta) True
                   (r \<inter> set pl) (Some j))))
       else
         emit (AddConGroup nm (c_size meta) (c_equals meta) (c_equals meta) False
                 (r \<inter> set pl) None)))"

text \<open>Lines 131--148.\<close>

definition add_eq_cons :: "env \<Rightarrow> name list \<Rightarrow> unit M" where
  "add_eq_cons env pl =
     bnd (get_st (\<lambda>s. get_constraints env (Some Eq) (Some False) (model s))) (\<lambda>econs.
     thn (modify (\<lambda>s. s\<lparr>quantities := quantities s @ map fst econs\<rparr>))
         (for_each (map fst econs) (add_eq_con env pl)))"

text \<open>Lines 153--169, one pass of the loop over the inequality constraints.\<close>

definition add_ineq_con :: "env \<Rightarrow> name list \<Rightarrow> name \<Rightarrow> unit M" where
  "add_ineq_con env pl nm =
     bnd (dict_get (constraints env) nm) (\<lambda>meta.
     bnd (case relevant env nm of None \<Rightarrow> raise (KeyError nm) | Some r \<Rightarrow> ret r) (\<lambda>r.
       if c_linear meta then
         bnd (get_st lin_jacs) (\<lambda>lj. bnd (dict_get lj nm) (\<lambda>j.
           emit (AddConGroup nm (c_size meta) (c_lower meta) (c_upper meta) True
                   (r \<inter> set pl) (Some j))))
       else
         emit (AddConGroup nm (c_size meta) (c_lower meta) (c_upper meta) False
                 (r \<inter> set pl) None)))"

text \<open>Lines 150--169.\<close>

definition add_ineq_cons :: "env \<Rightarrow> name list \<Rightarrow> unit M" where
  "add_ineq_cons env pl =
     bnd (get_st (\<lambda>s. get_constraints env (Some Ineq) (Some False) (model s))) (\<lambda>incons.
     thn (modify (\<lambda>s. s\<lparr>quantities := quantities s @ map fst incons\<rparr>))
         (for_each (map fst incons) (add_ineq_con env pl)))"

text \<open>Lines 104--169: the optimization problem is built; \<open>pl\<close> is the local \<^verbatim>\<open>param_list\<close>.\<close>

definition run_register :: "env \<Rightarrow> name list \<Rightarrow> unit M" where
  "run_register env pl =
     bnd (get_st (\<lambda>s. title (options s))) (\<lambda>t.
     thn (emit (NewOptimization t))
    (thn (add_params env)
    (thn (add_objectives env)
    (thn (linear_gradients env pl)
    (thn (add_eq_cons env pl)
         (add_ineq_cons env pl))))))"

text \<open>Lines 171--185: the optimizer class is imported by name and instantiated, and the
  user's settings are passed to it.\<close>

definition run_instantiate :: "env \<Rightarrow> unit M" where
  "run_instantiate env =
     bnd (get_st (\<lambda>s. optimizer (options s))) (\<lambda>nm.
     thn (if nm \<in> set (pyoptsparse_exports env) then ret ()
          else raise (ImportError (''Optimizer '' @ nm @ '' is not available in this installation.'')))
    (bnd (get_st opt_settings) (\<lambda>settings.
       for_each settings (\<lambda>(option, v). emit (SetOption option v)))))"

text \<open>The engine, while it holds control: it calls \<^verbatim>\<open>objfunc\<close> and, unless it
  differentiates by itself (\<open>g\<close> false), \<^verbatim>\<open>gradfunc\<close>. An exception that leaves a callback
  ends the call.\<close>

fun run_script :: "env \<Rightarrow> bool \<Rightarrow> request list \<Rightarrow> unit M" where
  "run_script env g [] = ret ()"
| "run_script env g (Evaluate dv # rs) = bnd (objfunc env dv) (\<lambda>_. run_script env g rs)"
| "run_script env g (Gradient dv fd # rs) =
     (if g then bnd (gradfunc env dv fd) (\<lambda>_. run_script env g rs) else run_script env g rs)"

text \<open>Lines 187--198.\<close>

definition run_execute :: "env \<Rightarrow> solution M" where
  "run_execute env =
     thn (modify (\<lambda>s. s\<lparr>p_problem := Some Problem\<rparr>))
    (bnd (get_st (\<lambda>s. pyopt_diff (options s))) (\<lambda>fd.
     thn (emit (CallOptimizer (if fd then SensFD (fd_step_size env) else SensGradfunc)))
    (thn (run_script env (\<not> fd) (engine_script env))
    (bnd (case engine_result env of Inl e \<Rightarrow> raise e | Inr sol \<Rightarrow> ret sol) (\<lambda>sol.
     thn (modify (\<lambda>s. s\<lparr>p_problem := None\<rparr>))
         (ret sol))))))"

text \<open>Lines 213--221: \<^verbatim>\<open>except KeyError\<close> catches the missing key and nothing else.\<close>

definition classify_exit :: "solution \<Rightarrow> unit M" where
  "classify_exit sol = (\<lambda>s.
     case bnd (dict_get (optInform sol) ''value'') (\<lambda>exit_status.
            thn (modify (\<lambda>s. s\<lparr>exit_flag := 1\<rparr>))
                (if exit_status > 2 then modify (\<lambda>s. s\<lparr>exit_flag := 0\<rparr>) else ret ())) s of
       (Raise (KeyError k), s') \<Rightarrow> (Ok (), s'\<lparr>exit_flag := 0\<rparr>)
     | r \<Rightarrow> r)"

text \<open>Lines 200--221.\<close>

definition run_finalize :: "env \<Rightarrow> name list \<Rightarrow> solution \<Rightarrow> unit M" where
  "run_finalize env pl sol =
     thn (bnd (get_st (\<lambda>s. print_results (options s))) (\<lambda>p.
            if p then emit (PrintSolution sol) else ret ()))
    (thn (for_each pl (\<lambda>nm. bnd (dict_get (getDVs sol) nm) (call_set_param env nm)))
    (thn (call_solve_nonlinear env)
    (thn (modify (\<lambda>s. s\<lparr>pyopt_solution := Some sol\<rparr>))
         (classify_exit sol))))"

definition run :: "env \<Rightarrow> unit M" where
  "run env =
     thn (run_initial env)
    (thn (run_register env (map fst (params env)))
    (thn (run_instantiate env)
    (bnd (run_execute env) (run_finalize env (map fst (params env))))))"

text \<open>A sequence of calls of the evaluation callback, as the engine makes them; an exception
  that leaves one of them ends the sequence.\<close>

fun objfunc_seq :: "env \<Rightarrow> dv_dict list \<Rightarrow> unit M" where
  "objfunc_seq env [] = ret ()"
| "objfunc_seq env (dv # dvs) = bnd (objfunc env dv) (\<lambda>_. objfunc_seq env dvs)"

text \<open>The calls of \<^verbatim>\<open>calc_gradient\<close> and the constraint groups in a trace.\<close>

fun calc_gradient_calls :: "event list \<Rightarrow> (name list \<times> resp list \<times> string) list" where
  "calc_gradient_calls [] = []"
| "calc_gradient_calls (CalcGradient ps rs fmt # t) = (ps, rs, fmt) # calc_gradient_calls t"
| "calc_gradient_calls (_ # t) = calc_gradient_calls t"

fun con_group_names :: "event list \<Rightarrow> name list" where
  "con_group_names [] = []"
| "con_group_names (AddConGroup nm sz lo up lin wrt j # t) = nm # con_group_names t"
| "con_group_names (_ # t) = con_group_names t"

fun is_solve :: "event \<Rightarrow> bool" where
  "is_solve (SolveNonlinear md) = True"
| "is_solve _ = False"

fun is_call_optimizer :: "event \<Rightarrow> bool" where
  "is_call_optimizer (CallOptimizer m) = True"
| "is_call_optimizer _ = False"

section \<open>A small problem\<close>

text \<open>
  One design variable \<open>x\<close> in \<open>[-10, 10]\<close>, the objective \<open>y = x\<^sup>2 + 2x\<close>, a linear
  equality constraint \<open>lin\<close>, a nonlinear equality constraint \<open>con_eq\<close> and a nonlinear
  inequality constraint \<open>con_in\<close>, whose relevant set also names a variable \<open>p\<close> that is no
  design variable. The engine evaluates at \<open>x = 2\<close>, asks for the gradient there and
  reports the optimum \<open>x = -1\<close>.
\<close>

definition ex_solve :: "local_meta option \<Rightarrow> model \<Rightarrow> py_exc option \<times> model" where
  "ex_solve md m =
     (None, m(''y'' := map (\<lambda>x. x * x + 2 * x) (m ''x''),
              ''lin'' := map (\<lambda>x. 3 * x) (m ''x''),
              ''con_eq'' := map (\<lambda>x. x * x) (m ''x''),
              ''con_in'' := map (\<lambda>x. x - 5) (m ''x'')))"

fun resp_key :: "resp \<Rightarrow> name" where
  "resp_key (RName n) = n"
| "resp_key (RValue v) = ''<array>''"

definition ex_calc_gradient :: "name list \<Rightarrow> resp list \<Rightarrow> model \<Rightarrow> py_exc + sens_dict" where
  "ex_calc_gradient ps rs m =
     Inr (map (\<lambda>r. (resp_key r, map (\<lambda>p. (p, [map (\<lambda>x. 2 * x + 2) (m ''x'')])) ps)) rs)"

definition ex_env :: env where
  "ex_env =
     \<lparr>params = [(''x'', \<lparr>p_size = 1, p_low = - 10, p_high = 10\<rparr>)],
      objectives = [''y''],
      constraints =
        [(''lin'', \<lparr>c_kind = Eq, c_size = 1, c_equals = Some 0, c_lower = None,
                     c_upper = None, c_linear = True\<rparr>),
         (''con_eq'', \<lparr>c_kind = Eq, c_size = 1, c_equals = Some 1, c_lower = None,
                        c_upper = None, c_linear = False\<rparr>),
         (''con_in'', \<lparr>c_kind = Ineq, c_size = 1, c_equals = None, c_lower = None,
                        c_upper = Some 0, c_linear = False\<rparr>)],
      relevant = (\<lambda>n. if n = ''con_in'' then Some {''x'', ''p''}
                       else if n \<in> set [''y'', ''lin'', ''con_eq''] then Some {''x''}
                       else None),
      fd_step_size = 1 / 1000000,
      solve_nonlinear = ex_solve,
      set_param = (\<lambda>n v m. (None, m(n := v))),
      calc_gradient = ex_calc_gradient,
      record_call = (\<lambda>md m. None),
      pyoptsparse_exports = [''SNOPT''],
      engine_script = [Evaluate [(''x'', [2])], Gradient [(''x'', [2])] [(''y'', [8])]],
      engine_result = Inr \<lparr>getDVs = [(''x'', [- 1])], optInform = [(''value'', 1)]\<rparr>\<rparr>"

definition ex_model :: model where
  "ex_model = (\<lambda>n. [0])"

text \<open>The driver while the engine holds control in a run on the small problem.\<close>

definition ex_running :: state where
  "ex_running =
     (init_driver ex_model)
       \<lparr>quantities := [''y'', ''con_eq'', ''con_in''],
        metadata := Some \<lparr>meta_name = ''SNOPT'', coord = [0]\<rparr>,
        p_problem := Some Problem, iter_count := Some 0, param_list := Some [''x'']\<rparr>"

section \<open>The complex-step Jacobian\<close>

text \<open>
  Modelled from the spec: the complex-step Jacobian provider of \<^verbatim>\<open>ExecComp\<close>
  (\<^verbatim>\<open>openmdao/components/execcomp.py\<close>), which is not among the sources; only its test is.
  For each scalar entry of the input, that single entry is perturbed by \<open>h\<close> along the
  imaginary axis, the expression is evaluated in complex arithmetic, and the Jacobian entry
  is the imaginary part of the output divided by \<open>h\<close>. Numbers are exact reals and complex
  numbers here; rounding is not modelled.
\<close>

definition perturb :: "real \<Rightarrow> complex list \<Rightarrow> nat \<Rightarrow> complex list" where
  "perturb h x j = x[j := x ! j + Complex 0 h]"

definition complex_step :: "real \<Rightarrow> (complex list \<Rightarrow> complex list) \<Rightarrow> real list \<Rightarrow> jac" where
  "complex_step h f x =
     (let xc = map complex_of_real x in
      map (\<lambda>i. map (\<lambda>j. Im (f (perturb h xc j) ! i) / h) [0..<length x])
          [0..<length (f xc)])"

text \<open>The expressions of \<^verbatim>\<open>test_simple_array_model\<close>:
  \<^verbatim>\<open>y[0]=2.0*x[0]+7.0*x[1]\<close> and \<^verbatim>\<open>y[1]=5.0*x[0]-3.0*x[1]\<close>.\<close>

definition simple_array_model :: "complex list \<Rightarrow> complex list" where
  "simple_array_model x = [2 * x ! 0 + 7 * x ! 1, 5 * x ! 0 - 3 * x ! 1]"

section \<open>Observations on states and traces\<close>

text \<open>A statement leaves an observation of the state alone; a statement only appends to the
  trace, and only events of one kind.\<close>

definition preserves :: "(state \<Rightarrow> 'b) \<Rightarrow> 'a M \<Rightarrow> bool" where
  "preserves f m = (\<forall>s. f (snd (m s)) = f s)"

definition adds_only :: "(event \<Rightarrow> bool) \<Rightarrow> 'a M \<Rightarrow> bool" where
  "adds_only P m = (\<forall>s. \<exists>t. trace (snd (m s)) = trace s @ t \<and> list_all P t)"

text \<open>The events of a callback: calls into the model and printing.\<close>

fun callback_event :: "event \<Rightarrow> bool" where
  "callback_event (SolveNonlinear md) = True"
| "callback_event (SetParam nm v) = True"
| "callback_event (CalcGradient ps rs fmt) = True"
| "callback_event (RecordIter md) = True"
| "callback_event (Print m) = True"
| "callback_event (PrintExc e) = True"
| "callback_event _ = False"

text \<open>A constraint group whose \<^verbatim>\<open>wrt\<close> is the constraint's relevant set, cut down to the
  registered design variables.\<close>

fun wrt_ok :: "env \<Rightarrow> event \<Rightarrow> bool" where
  "wrt_ok env (AddConGroup nm sz lo up lin wrt j) =
     (case relevant env nm of None \<Rightarrow> False | Some r \<Rightarrow> wrt = r \<inter> set (map fst (params env)))"
| "wrt_ok env _ = True"

text \<open>The identifiers of the nonlinear constraints of one kind, in declaration order.\<close>

definition nonlinear_names :: "env \<Rightarrow> ctype \<Rightarrow> name list" where
  "nonlinear_names env k =
     map fst (filter (\<lambda>(n, meta). c_kind meta = k \<and> \<not> c_linear meta) (constraints env))"

text \<open>The response list as the claim words it: the objectives, then the nonlinear equality
  constraints, then the nonlinear inequality constraints.\<close>

definition spec_quantities :: "env \<Rightarrow> name list" where
  "spec_quantities env = objectives env @ nonlinear_names env Eq @ nonlinear_names env Ineq"

definition linear_names :: "env \<Rightarrow> name list" where
  "linear_names env = map fst (filter (\<lambda>(n, meta). c_linear meta) (constraints env))"

text \<open>Every response has one identifier of its own.\<close>

definition distinct_responses :: "env \<Rightarrow> bool" where
  "distinct_responses env = distinct (objectives env @ map fst (constraints env))"

text \<open>The exit classification as the claim words it: \<open>1\<close> for a status code that is
  present and not above \<open>2\<close>, \<open>0\<close> for a code above \<open>2\<close> and for a missing code.\<close>

definition spec_exit_flag :: "solution \<Rightarrow> int" where
  "spec_exit_flag sol =
     (case map_of (optInform sol) ''value'' of
        None \<Rightarrow> 0
      | Some v \<Rightarrow> if v > 2 then 0 else 1)"

text \<open>The events of the registration phase other than constraint groups, and the
  constraint groups.\<close>

fun registration_event :: "event \<Rightarrow> bool" where
  "registration_event (NewOptimization t) = True"
| "registration_event (AddVarGroup nm sz v lo hi) = True"
| "registration_event FinalizeDesignVariables = True"
| "registration_event (AddObj nm) = True"
| "registration_event (CalcGradient ps rs fmt) = True"
| "registration_event _ = False"

fun is_con_group :: "event \<Rightarrow> bool" where
  "is_con_group (AddConGroup nm sz lo up lin wrt j) = True"
| "is_con_group _ = False"

section \<open>Properties\<close>

lemmas monad_defs = ret_def raise_def bnd_def thn_def emit_def modify_def get_st_def

subsection \<open>Statements that leave an observation alone\<close>

lemma preservesD: "preserves f m \<Longrightarrow> f (snd (m s)) = f s"
  by (simp add: preserves_def)

lemma preserves_ret: "preserves f (ret x)"
  by (simp add: preserves_def ret_def)

lemma preserves_raise: "preserves f (raise e)"
  by (simp add: preserves_def raise_def)

lemma preserves_get_st: "preserves f (get_st g)"
  by (simp add: preserves_def get_st_def)

lemma preserves_bnd:
  assumes "preserves f m" and "\<And>x. preserves f (g x)"
  shows "preserves f (bnd m g)"
  unfolding preserves_def
proof
  fix s
  obtain r s1 where ms: "m s = (r, s1)" by (cases "m s")
  have s1: "f s1 = f s" using preservesD [OF assms(1), of s] ms by simp
  show "f (snd (bnd m g s)) = f s"
  proof (cases r)
    case (Ok x)
    then show ?thesis using ms s1 preservesD [OF assms(2), of x s1] by (simp add: bnd_def)
  next
    case (Raise e)
    then show ?thesis using ms s1 by (simp add: bnd_def)
  qed
qed

lemma preserves_thn: "preserves f m \<Longrightarrow> preserves f n \<Longrightarrow> preserves f (thn m n)"
  by (simp add: thn_def preserves_bnd)

lemma preserves_for_each: "(\<And>x. preserves f (g x)) \<Longrightarrow> preserves f (for_each xs g)"
  by (induction xs) (simp_all add: preserves_ret preserves_thn)

lemma preserves_dict_get: "preserves f (dict_get d k)"
  by (cases "map_of d k") (simp_all add: dict_get_def preserves_ret preserves_raise)

lemma preserves_emit: "(\<And>s t. f (s\<lparr>trace := t\<rparr>) = f s) \<Longrightarrow> preserves f (emit ev)"
  by (simp add: preserves_def emit_def)

lemma preserves_modify: "(\<And>s. f (h s) = f s) \<Longrightarrow> preserves f (modify h)"
  by (simp add: preserves_def modify_def)

lemma preserves_call_set_param:
  assumes "\<And>s t. f (s\<lparr>trace := t\<rparr>) = f s" and "\<And>s m. f (s\<lparr>model := m\<rparr>) = f s"
  shows "preserves f (call_set_param env nm v)"
  by (simp add: preserves_def call_set_param_def Let_def assms split: prod.splits option.splits)

lemma preserves_call_solve_nonlinear:
  assumes "\<And>s t. f (s\<lparr>trace := t\<rparr>) = f s" and "\<And>s m. f (s\<lparr>model := m\<rparr>) = f s"
  shows "preserves f (call_solve_nonlinear env)"
  by (simp add: preserves_def call_solve_nonlinear_def Let_def assms split: prod.splits option.splits)

lemma preserves_call_record:
  assumes "\<And>s t. f (s\<lparr>trace := t\<rparr>) = f s"
  shows "preserves f (call_record env)"
  by (simp add: preserves_def call_record_def Let_def assms split: option.splits)

lemma preserves_call_calc_gradient:
  assumes "\<And>s t. f (s\<lparr>trace := t\<rparr>) = f s"
  shows "preserves f (call_calc_gradient env ps rs)"
  by (simp add: preserves_def call_calc_gradient_def Let_def assms split: sum.splits)

lemma preserves_apply_dvs:
  assumes "\<And>s t. f (s\<lparr>trace := t\<rparr>) = f s" and "\<And>s m. f (s\<lparr>model := m\<rparr>) = f s"
  shows "preserves f (apply_dvs env dv)"
proof -
  have "preserves f (for_each pl (\<lambda>nm. bnd (dict_get dv nm) (call_set_param env nm)))" for pl
    by (intro preserves_for_each preserves_bnd preserves_dict_get preserves_call_set_param assms)
  then show ?thesis
    by (simp add: preserves_def apply_dvs_def split: option.splits)
qed

lemma preserves_advance_iter:
  "(\<And>s n. f (s\<lparr>iter_count := n\<rparr>) = f s) \<Longrightarrow> preserves f advance_iter"
  by (simp add: preserves_def advance_iter_def split: option.splits)

lemma preserves_refresh_meta:
  "(\<And>s n. f (s\<lparr>metadata := n\<rparr>) = f s) \<Longrightarrow> preserves f refresh_meta"
  by (simp add: preserves_def refresh_meta_def split: option.splits)

lemma print_exception_frame:
  "(\<And>s t. f (s\<lparr>trace := t\<rparr>) = f s) \<Longrightarrow> f (print_exception e s) = f s"
  by (simp add: print_exception_def)

lemma preserves_objfunc:
  assumes tr: "\<And>s t. f (s\<lparr>trace := t\<rparr>) = f s" and mo: "\<And>s m. f (s\<lparr>model := m\<rparr>) = f s"
    and it: "\<And>s n. f (s\<lparr>iter_count := n\<rparr>) = f s" and me: "\<And>s n. f (s\<lparr>metadata := n\<rparr>) = f s"
  shows "preserves f (objfunc env dv)"
  unfolding preserves_def
proof
  fix s
  let ?m0 = "thn (apply_dvs env dv) (thn advance_iter (thn refresh_meta (call_solve_nonlinear env)))"
  have p0: "preserves f ?m0"
    by (intro preserves_thn preserves_apply_dvs preserves_advance_iter preserves_refresh_meta
        preserves_call_solve_nonlinear tr mo it me)
  obtain r1 s1 where m0: "?m0 s = (r1, s1)" by (cases "?m0 s")
  have s1: "f s1 = f s" using preservesD [OF p0, of s] m0 by simp
  obtain r2 s2 where rc: "call_record env s1 = (r2, s2)" by (cases "call_record env s1")
  have s2: "f s2 = f s" using preservesD [OF preserves_call_record, of f env s1] rc s1 tr by simp
  show "f (snd (objfunc env dv s)) = f s"
    using m0 rc s1 s2
    by (cases r1; cases r2) (simp_all add: objfunc_def objfunc_body_def print_exception_frame tr)
qed

lemma preserves_gradfunc:
  assumes tr: "\<And>s t. f (s\<lparr>trace := t\<rparr>) = f s"
  shows "preserves f (gradfunc env dv fd)"
  unfolding preserves_def
proof
  fix s
  have pb: "preserves f (gradfunc_body env dv fd)"
    using preserves_call_calc_gradient [of f env, OF tr]
    by (simp add: preserves_def gradfunc_body_def split: option.splits)
  obtain r1 s1 where b: "gradfunc_body env dv fd s = (r1, s1)" by (cases "gradfunc_body env dv fd s")
  have "f s1 = f s" using preservesD [OF pb, of s] b by simp
  then show "f (snd (gradfunc env dv fd s)) = f s"
    using b by (cases r1) (simp_all add: gradfunc_def print_exception_frame tr)
qed

lemma preserves_run_script:
  assumes tr: "\<And>s t. f (s\<lparr>trace := t\<rparr>) = f s" and mo: "\<And>s m. f (s\<lparr>model := m\<rparr>) = f s"
    and it: "\<And>s n. f (s\<lparr>iter_count := n\<rparr>) = f s" and me: "\<And>s n. f (s\<lparr>metadata := n\<rparr>) = f s"
  shows "preserves f (run_script env g rs)"
proof (induction env g rs rule: run_script.induct)
  case (1 env g)
  show ?case by (simp add: preserves_ret)
next
  case (2 env g dv rs)
  then show ?case by (simp add: preserves_bnd preserves_objfunc tr mo it me)
next
  case (3 env g dv fd rs)
  then show ?case by (simp add: preserves_bnd preserves_gradfunc tr)
qed

subsection \<open>Statements that only append to the trace\<close>

lemma adds_onlyD: "adds_only P m \<Longrightarrow> \<exists>t. trace (snd (m s)) = trace s @ t \<and> list_all P t"
  by (simp add: adds_only_def)

lemma adds_onlyI:
  "(\<And>s. \<exists>t. trace (snd (m s)) = trace s @ t \<and> list_all P t) \<Longrightarrow> adds_only P m"
  by (simp add: adds_only_def)

lemma adds_only_mono: "adds_only P m \<Longrightarrow> (\<And>ev. P ev \<Longrightarrow> Q ev) \<Longrightarrow> adds_only Q m"
  unfolding adds_only_def list_all_iff by blast

lemma adds_only_ret: "adds_only P (ret x)"
  by (simp add: adds_only_def ret_def)

lemma adds_only_raise: "adds_only P (raise e)"
  by (simp add: adds_only_def raise_def)

lemma adds_only_get_st: "adds_only P (get_st g)"
  by (simp add: adds_only_def get_st_def)

lemma adds_only_emit: "P ev \<Longrightarrow> adds_only P (emit ev)"
  by (simp add: adds_only_def emit_def)

lemma adds_only_modify: "(\<And>s. trace (h s) = trace s) \<Longrightarrow> adds_only P (modify h)"
  by (simp add: adds_only_def modify_def)

lemma adds_only_bnd:
  assumes "adds_only P m" and "\<And>x. adds_only P (g x)"
  shows "adds_only P (bnd m g)"
proof (rule adds_onlyI)
  fix s
  obtain r s1 where ms: "m s = (r, s1)" by (cases "m s")
  obtain t1 where t1: "trace s1 = trace s @ t1" "list_all P t1"
    using adds_onlyD [OF assms(1), of s] ms by auto
  show "\<exists>t. trace (snd (bnd m g s)) = trace s @ t \<and> list_all P t"
  proof (cases r)
    case (Ok x)
    obtain t2 where "trace (snd (g x s1)) = trace s1 @ t2" "list_all P t2"
      using adds_onlyD [OF assms(2), of x s1] by auto
    then have "trace (snd (bnd m g s)) = trace s @ (t1 @ t2) \<and> list_all P (t1 @ t2)"
      using Ok ms t1 by (simp add: bnd_def)
    then show ?thesis by blast
  next
    case (Raise e)
    then show ?thesis using ms t1 by (auto simp: bnd_def)
  qed
qed

lemma adds_only_thn: "adds_only P m \<Longrightarrow> adds_only P n \<Longrightarrow> adds_only P (thn m n)"
  by (simp add: thn_def adds_only_bnd)

lemma adds_only_for_each: "(\<And>x. adds_only P (g x)) \<Longrightarrow> adds_only P (for_each xs g)"
  by (induction xs) (simp_all add: adds_only_ret adds_only_thn)

lemma adds_only_dict_get: "adds_only P (dict_get d k)"
  by (cases "map_of d k") (simp_all add: dict_get_def adds_only_ret adds_only_raise)

lemma adds_only_call_set_param: "P (SetParam nm v) \<Longrightarrow> adds_only P (call_set_param env nm v)"
  by (simp add: adds_only_def call_set_param_def Let_def split: prod.splits option.splits)

lemma adds_only_call_solve_nonlinear:
  "(\<And>md. P (SolveNonlinear md)) \<Longrightarrow> adds_only P (call_solve_nonlinear env)"
  by (simp add: adds_only_def call_solve_nonlinear_def Let_def split: prod.splits option.splits)

lemma adds_only_call_record: "(\<And>md. P (RecordIter md)) \<Longrightarrow> adds_only P (call_record env)"
  by (simp add: adds_only_def call_record_def Let_def split: option.splits)

lemma adds_only_call_calc_gradient:
  "P (CalcGradient ps rs ''dict'') \<Longrightarrow> adds_only P (call_calc_gradient env ps rs)"
  by (simp add: adds_only_def call_calc_gradient_def Let_def split: sum.splits)

lemma adds_only_apply_dvs:
  assumes "\<And>nm v. P (SetParam nm v)"
  shows "adds_only P (apply_dvs env dv)"
proof -
  have "adds_only P (for_each pl (\<lambda>nm. bnd (dict_get dv nm) (call_set_param env nm)))" for pl
    by (intro adds_only_for_each adds_only_bnd adds_only_dict_get adds_only_call_set_param assms)
  then show ?thesis
    by (simp add: adds_only_def apply_dvs_def split: option.splits)
qed

lemma adds_only_advance_iter: "adds_only P advance_iter"
  by (simp add: adds_only_def advance_iter_def split: option.splits)

lemma adds_only_refresh_meta: "adds_only P refresh_meta"
  by (simp add: adds_only_def refresh_meta_def split: option.splits)

lemma adds_only_objfunc:
  assumes "\<And>ev. callback_event ev \<Longrightarrow> P ev"
  shows "adds_only P (objfunc env dv)"
proof (rule adds_only_mono [OF _ assms])
  let ?m0 = "thn (apply_dvs env dv) (thn advance_iter (thn refresh_meta (call_solve_nonlinear env)))"
  have a0: "adds_only callback_event ?m0"
    by (intro adds_only_thn adds_only_apply_dvs adds_only_advance_iter adds_only_refresh_meta
        adds_only_call_solve_nonlinear) simp_all
  show "adds_only callback_event (objfunc env dv)"
  proof (rule adds_onlyI)
    fix s
    obtain r1 s1 where m0: "?m0 s = (r1, s1)" by (cases "?m0 s")
    obtain t1 where t1: "trace s1 = trace s @ t1" "list_all callback_event t1"
      using adds_onlyD [OF a0, of s] m0 by auto
    obtain r2 s2 where rc: "call_record env s1 = (r2, s2)" by (cases "call_record env s1")
    have "adds_only callback_event (call_record env)"
      by (rule adds_only_call_record) simp
    then obtain t2 where t2: "trace s2 = trace s1 @ t2" "list_all callback_event t2"
      using adds_onlyD [of callback_event "call_record env" s1] rc by auto
    show "\<exists>t. trace (snd (objfunc env dv s)) = trace s @ t \<and> list_all callback_event t"
      using m0 rc t1 t2
      by (cases r1; cases r2) (auto simp: objfunc_def objfunc_body_def print_exception_def)
  qed
qed

lemma adds_only_gradfunc:
  assumes "\<And>ev. callback_event ev \<Longrightarrow> P ev"
  shows "adds_only P (gradfunc env dv fd)"
proof (rule adds_only_mono [OF _ assms])
  have ab: "adds_only callback_event (gradfunc_body env dv fd)"
    using adds_only_call_calc_gradient [of callback_event]
    by (simp add: adds_only_def gradfunc_body_def split: option.splits)
  show "adds_only callback_event (gradfunc env dv fd)"
  proof (rule adds_onlyI)
    fix s
    obtain r1 s1 where b: "gradfunc_body env dv fd s = (r1, s1)"
      by (cases "gradfunc_body env dv fd s")
    obtain t1 where "trace s1 = trace s @ t1" "list_all callback_event t1"
      using adds_onlyD [OF ab, of s] b by auto
    then show "\<exists>t. trace (snd (gradfunc env dv fd s)) = trace s @ t \<and> list_all callback_event t"
      using b by (cases r1) (auto simp: gradfunc_def print_exception_def)
  qed
qed

lemma adds_only_run_script:
  assumes "\<And>ev. callback_event ev \<Longrightarrow> P ev"
  shows "adds_only P (run_script env g rs)"
proof (induction env g rs rule: run_script.induct)
  case (1 env g)
  show ?case by (simp add: adds_only_ret)
next
  case (2 env g dv rs)
  then show ?case by (simp add: adds_only_bnd adds_only_objfunc assms)
next
  case (3 env g dv fd rs)
  then show ?case by (simp add: adds_only_bnd adds_only_gradfunc assms)
qed

lemma calc_gradient_calls_append:
  "calc_gradient_calls (xs @ ys) = calc_gradient_calls xs @ calc_gradient_calls ys"
  by (induction xs rule: calc_gradient_calls.induct) simp_all

subsection \<open>The callbacks on the small problem\<close>

lemmas callback_defs = objfunc_body_def gradfunc_body_def apply_dvs_def advance_iter_def
  refresh_meta_def call_solve_nonlinear_def call_set_param_def call_calc_gradient_def
  call_record_def dict_get_def harvest_def get_objectives_def get_constraints_def
  con_selected_def update_local_meta_def

lemmas ex_defs = ex_env_def ex_running_def ex_model_def ex_solve_def ex_calc_gradient_def
  init_driver_def

lemma ex_objfunc_body:
  "fst (objfunc_body ex_env [(''x'', [2])] ex_running) =
     (Ok (), [(''y'', [8]), (''lin'', [6]), (''con_eq'', [4]), (''con_in'', [- 3])])"
  by (simp add: callback_defs ex_defs monad_defs)

lemma ex_objfunc_body_no_dv:
  "fst (objfunc_body ex_env [] ex_running) = (Raise (KeyError ''x''), [])"
  by (simp add: callback_defs ex_defs monad_defs)

lemma ex_objfunc_body_diverged:
  "fst (objfunc_body (ex_env\<lparr>solve_nonlinear := (\<lambda>md m. (Some (OtherException ''diverged''), m))\<rparr>)
          [(''x'', [2])] ex_running) = (Raise (OtherException ''diverged''), [])"
  by (simp add: callback_defs ex_defs monad_defs)

lemma ex_objfunc_body_record:
  "fst (objfunc_body (ex_env\<lparr>record_call := (\<lambda>md m. Some (OtherException ''recorder''))\<rparr>)
          [(''x'', [2])] ex_running) =
     (Raise (OtherException ''recorder''),
      [(''y'', [8]), (''lin'', [6]), (''con_eq'', [4]), (''con_in'', [- 3])])"
  by (simp add: callback_defs ex_defs monad_defs)

lemma ex_gradfunc_body:
  "fst (gradfunc_body ex_env [(''x'', [2])] [(''y'', [8])] ex_running) =
     Ok [(''y'', [(''x'', [[2]])]), (''con_eq'', [(''x'', [[2]])]), (''con_in'', [(''x'', [[2]])])]"
  by (simp add: callback_defs ex_defs monad_defs)

lemma ex_gradfunc_body_singular:
  "fst (gradfunc_body (ex_env\<lparr>calc_gradient := (\<lambda>ps rs m. Inl (OtherException ''singular''))\<rparr>)
          [(''x'', [2])] [(''y'', [8])] ex_running) = Raise (OtherException ''singular'')"
  by (simp add: callback_defs ex_defs monad_defs)

lemma ex_objfunc_interrupt:
  "fst (objfunc (ex_env\<lparr>solve_nonlinear := (\<lambda>md m. (Some KeyboardInterrupt, m))\<rparr>)
          [(''x'', [2])] ex_running) = Raise KeyboardInterrupt"
  by (simp add: objfunc_def callback_defs ex_defs monad_defs)

lemma ex_gradfunc_interrupt:
  "fst (gradfunc (ex_env\<lparr>calc_gradient := (\<lambda>ps rs m. Inl KeyboardInterrupt)\<rparr>)
          [(''x'', [2])] [(''y'', [8])] ex_running) = Raise KeyboardInterrupt"
  by (simp add: gradfunc_def callback_defs ex_defs monad_defs)

subsection \<open>Exceptions in the callbacks\<close>

text \<open>
  Claim C1, as the code has it. When the body of the evaluation callback ends without an
  exception, the callback returns the function dictionary and the flag \<open>0\<close>; when the body
  raises an exception of class \<^verbatim>\<open>Exception\<close>, the callback prints the diagnostic and
  returns the dictionary as it stood, with the flag \<open>1\<close>. The gradient callback does the
  same, and on an exception its dictionary is empty. No exception of class
  \<^verbatim>\<open>Exception\<close> leaves either callback.
\<close>

theorem callbacks_catch_Exception:
  "(\<forall>fd s'. objfunc_body env dv s = ((Ok (), fd), s') \<longrightarrow> objfunc env dv s = (Ok (fd, 0), s')) \<and>
   (\<forall>e fd s'. objfunc_body env dv s = ((Raise e, fd), s') \<and> is_Exception e \<longrightarrow>
        objfunc env dv s = (Ok (fd, 1), print_exception e s')) \<and>
   (\<forall>J s'. gradfunc_body env dv fdict s = (Ok J, s') \<longrightarrow> gradfunc env dv fdict s = (Ok (J, 0), s')) \<and>
   (\<forall>e s'. gradfunc_body env dv fdict s = (Raise e, s') \<and> is_Exception e \<longrightarrow>
        gradfunc env dv fdict s = (Ok ([], 1), print_exception e s')) \<and>
   (\<forall>e s'. objfunc env dv s = (Raise e, s') \<longrightarrow> \<not> is_Exception e) \<and>
   (\<forall>e s'. gradfunc env dv fdict s = (Raise e, s') \<longrightarrow> \<not> is_Exception e)"
  by (auto simp: objfunc_def gradfunc_def split: prod.splits res.splits if_splits)

theorem callbacks_catch_Exception_witness:
  "fst (objfunc ex_env [(''x'', [2])] ex_running) =
     Ok ([(''y'', [8]), (''lin'', [6]), (''con_eq'', [4]), (''con_in'', [- 3])], 0) \<and>
   fst (objfunc ex_env [] ex_running) = Ok ([], 1) \<and>
   fst (objfunc (ex_env\<lparr>record_call := (\<lambda>md m. Some (OtherException ''recorder''))\<rparr>)
          [(''x'', [2])] ex_running) =
     Ok ([(''y'', [8]), (''lin'', [6]), (''con_eq'', [4]), (''con_in'', [- 3])], 1) \<and>
   fst (gradfunc ex_env [(''x'', [2])] [(''y'', [8])] ex_running) =
     Ok ([(''y'', [(''x'', [[2]])]), (''con_eq'', [(''x'', [[2]])]), (''con_in'', [(''x'', [[2]])])], 0) \<and>
   fst (gradfunc (ex_env\<lparr>calc_gradient := (\<lambda>ps rs m. Inl (OtherException ''singular''))\<rparr>)
          [(''x'', [2])] [(''y'', [8])] ex_running) = Ok ([], 1) \<and>
   fst (objfunc (ex_env\<lparr>solve_nonlinear := (\<lambda>md m. (Some KeyboardInterrupt, m))\<rparr>)
          [(''x'', [2])] ex_running) = Raise KeyboardInterrupt \<and>
   fst (gradfunc (ex_env\<lparr>calc_gradient := (\<lambda>ps rs m. Inl KeyboardInterrupt)\<rparr>)
          [(''x'', [2])] [(''y'', [8])] ex_running) = Raise KeyboardInterrupt \<and>
   \<not> is_Exception KeyboardInterrupt"
proof (intro conjI)
  let ?fd = "[(''y'', [8]), (''lin'', [6]), (''con_eq'', [4]), (''con_in'', [- 3])] :: func_dict"
  obtain s1 where "objfunc_body ex_env [(''x'', [2])] ex_running = ((Ok (), ?fd), s1)"
    using ex_objfunc_body by (cases "objfunc_body ex_env [(''x'', [2])] ex_running") auto
  then show "fst (objfunc ex_env [(''x'', [2])] ex_running) = Ok (?fd, 0)"
    using callbacks_catch_Exception [of ex_env "[(''x'', [2])]" ex_running] by simp
next
  obtain s1 where "objfunc_body ex_env [] ex_running = ((Raise (KeyError ''x''), []), s1)"
    using ex_objfunc_body_no_dv by (cases "objfunc_body ex_env [] ex_running") auto
  then show "fst (objfunc ex_env [] ex_running) = Ok ([], 1)"
    using callbacks_catch_Exception [of ex_env "[]" ex_running] by simp
next
  let ?env = "ex_env\<lparr>record_call := (\<lambda>md m. Some (OtherException ''recorder''))\<rparr>"
  let ?fd = "[(''y'', [8]), (''lin'', [6]), (''con_eq'', [4]), (''con_in'', [- 3])] :: func_dict"
  obtain s1 where "objfunc_body ?env [(''x'', [2])] ex_running =
      ((Raise (OtherException ''recorder''), ?fd), s1)"
    using ex_objfunc_body_record by (cases "objfunc_body ?env [(''x'', [2])] ex_running") auto
  then show "fst (objfunc ?env [(''x'', [2])] ex_running) = Ok (?fd, 1)"
    using callbacks_catch_Exception [of ?env "[(''x'', [2])]" ex_running] by simp
next
  let ?J = "[(''y'', [(''x'', [[2]])]), (''con_eq'', [(''x'', [[2]])]),
             (''con_in'', [(''x'', [[2]])])] :: sens_dict"
  obtain s1 where "gradfunc_body ex_env [(''x'', [2])] [(''y'', [8])] ex_running = (Ok ?J, s1)"
    using ex_gradfunc_body
    by (cases "gradfunc_body ex_env [(''x'', [2])] [(''y'', [8])] ex_running") auto
  then show "fst (gradfunc ex_env [(''x'', [2])] [(''y'', [8])] ex_running) = Ok (?J, 0)"
    using callbacks_catch_Exception [where env = ex_env and dv = "[(''x'', [2])]"
        and fdict = "[(''y'', [8])]" and s = ex_running] by simp
next
  let ?env = "ex_env\<lparr>calc_gradient := (\<lambda>ps rs m. Inl (OtherException ''singular''))\<rparr>"
  obtain s1 where "gradfunc_body ?env [(''x'', [2])] [(''y'', [8])] ex_running =
      (Raise (OtherException ''singular''), s1)"
    using ex_gradfunc_body_singular
    by (cases "gradfunc_body ?env [(''x'', [2])] [(''y'', [8])] ex_running") auto
  then show "fst (gradfunc ?env [(''x'', [2])] [(''y'', [8])] ex_running) = Ok ([], 1)"
    using callbacks_catch_Exception [where env = ?env and dv = "[(''x'', [2])]"
        and fdict = "[(''y'', [8])]" and s = ex_running] by simp
next
  let ?env = "ex_env\<lparr>solve_nonlinear := (\<lambda>md m. (Some KeyboardInterrupt, m))\<rparr>"
  show "fst (objfunc ?env [(''x'', [2])] ex_running) = Raise KeyboardInterrupt"
    by (rule ex_objfunc_interrupt)
  then obtain s1 where "objfunc ?env [(''x'', [2])] ex_running = (Raise KeyboardInterrupt, s1)"
    by (cases "objfunc ?env [(''x'', [2])] ex_running") auto
  then show "\<not> is_Exception KeyboardInterrupt"
    using callbacks_catch_Exception [where env = ?env and dv = "[(''x'', [2])]"
        and s = ex_running] by blast
next
  let ?env = "ex_env\<lparr>calc_gradient := (\<lambda>ps rs m. Inl KeyboardInterrupt)\<rparr>"
  show "fst (gradfunc ?env [(''x'', [2])] [(''y'', [8])] ex_running) = Raise KeyboardInterrupt"
    by (rule ex_gradfunc_interrupt)
qed

text \<open>
  The claim as it is worded fails: an exception that is not of class \<^verbatim>\<open>Exception\<close>
  (an interrupt during the solve or during the gradient computation) leaves the callback.
\<close>

theorem callbacks_propagate_counterexample:
  "fst (objfunc (ex_env\<lparr>solve_nonlinear := (\<lambda>md m. (Some KeyboardInterrupt, m))\<rparr>)
          [(''x'', [2])] ex_running) = Raise KeyboardInterrupt \<and>
   fst (gradfunc (ex_env\<lparr>calc_gradient := (\<lambda>ps rs m. Inl KeyboardInterrupt)\<rparr>)
          [(''x'', [2])] [(''y'', [8])] ex_running) = Raise KeyboardInterrupt"
  by (simp add: objfunc_def gradfunc_def callback_defs ex_defs monad_defs)

subsection \<open>What the gradient callback asks of the model\<close>

text \<open>
  Claim C2, as the code has it. While a run is in progress the gradient callback calls the
  model's gradient computation exactly once, for the identifiers of the design-point
  dictionary and the driver's response list \<^verbatim>\<open>self.quantities\<close>, in dictionary return
  format, whatever the function dictionary holds; what the computation returns is what
  the callback returns. Outside a run it does not call it.
\<close>

theorem gradfunc_calc_gradient_call:
  "(p_problem s = Some r \<longrightarrow>
      calc_gradient_calls (trace (snd (gradfunc env dv fd s))) =
        calc_gradient_calls (trace s) @ [(map fst dv, map RName (quantities s), ''dict'')]) \<and>
   (p_problem s = None \<longrightarrow>
      calc_gradient_calls (trace (snd (gradfunc env dv fd s))) = calc_gradient_calls (trace s)) \<and>
   (\<forall>J. p_problem s = Some r \<and>
        calc_gradient env (map fst dv) (map RName (quantities s)) (model s) = Inr J \<longrightarrow>
        fst (gradfunc env dv fd s) = Ok (J, 0))"
  by (auto simp: gradfunc_def gradfunc_body_def call_calc_gradient_def print_exception_def
      calc_gradient_calls_append Let_def split: sum.splits)

theorem gradfunc_calc_gradient_call_witness:
  "calc_gradient_calls (trace (snd (gradfunc ex_env [(''x'', [2])] [] ex_running))) =
     [([''x''], [RName ''y'', RName ''con_eq'', RName ''con_in''], ''dict'')] \<and>
   calc_gradient_calls (trace (snd (gradfunc ex_env [(''x'', [2])] [] (init_driver ex_model)))) = [] \<and>
   fst (gradfunc ex_env [(''x'', [2])] [] ex_running) =
     Ok ([(''y'', [(''x'', [[2]])]), (''con_eq'', [(''x'', [[2]])]), (''con_in'', [(''x'', [[2]])])], 0)"
proof (intro conjI)
  have p: "p_problem ex_running = Some Problem"
    by (simp add: ex_defs)
  show "calc_gradient_calls (trace (snd (gradfunc ex_env [(''x'', [2])] [] ex_running))) =
     [([''x''], [RName ''y'', RName ''con_eq'', RName ''con_in''], ''dict'')]"
    using gradfunc_calc_gradient_call [where s = ex_running and r = Problem and env = ex_env
        and dv = "[(''x'', [2])]" and fd = "[]"] p
    by (simp add: ex_defs)
  show "calc_gradient_calls (trace (snd (gradfunc ex_env [(''x'', [2])] [] (init_driver ex_model)))) = []"
    using gradfunc_calc_gradient_call [where s = "init_driver ex_model" and env = ex_env
        and dv = "[(''x'', [2])]" and fd = "[]"]
    by (simp add: init_driver_def)
  have "calc_gradient ex_env (map fst [(''x'', [2::real])])
          (map RName (quantities ex_running)) (model ex_running) =
        Inr [(''y'', [(''x'', [[2]])]), (''con_eq'', [(''x'', [[2]])]), (''con_in'', [(''x'', [[2]])])]"
    by (simp add: ex_defs)
  with p show "fst (gradfunc ex_env [(''x'', [2])] [] ex_running) =
     Ok ([(''y'', [(''x'', [[2]])]), (''con_eq'', [(''x'', [[2]])]), (''con_in'', [(''x'', [[2]])])], 0)"
    using gradfunc_calc_gradient_call [where s = ex_running and r = Problem and env = ex_env
        and dv = "[(''x'', [2])]" and fd = "[]"]
    by blast
qed

text \<open>
  The claim as it is worded fails: the function dictionary that the evaluation callback
  has just returned names the linear constraint \<open>lin\<close>, and the gradient callback, given
  that dictionary, asks for the responses of \<^verbatim>\<open>self.quantities\<close>, which do not include it.
\<close>

theorem gradfunc_func_dict_counterexample:
  "fst (objfunc ex_env [(''x'', [2])] ex_running) =
     Ok ([(''y'', [8]), (''lin'', [6]), (''con_eq'', [4]), (''con_in'', [- 3])], 0) \<and>
   calc_gradient_calls (trace (snd (gradfunc ex_env [(''x'', [2])]
       [(''y'', [8]), (''lin'', [6]), (''con_eq'', [4]), (''con_in'', [- 3])]
       (snd (objfunc ex_env [(''x'', [2])] ex_running))))) =
     [([''x''], [RName ''y'', RName ''con_eq'', RName ''con_in''], ''dict'')] \<and>
   calc_gradient_calls (trace (snd (gradfunc ex_env [(''x'', [2])]
       [(''y'', [8]), (''lin'', [6]), (''con_eq'', [4]), (''con_in'', [- 3])]
       (snd (objfunc ex_env [(''x'', [2])] ex_running))))) \<noteq>
     [(map fst [(''x'', [2::real])],
       map RName (map fst [(''y'', [8::real]), (''lin'', [6]), (''con_eq'', [4]), (''con_in'', [- 3])]),
       ''dict'')]"
  by (simp add: objfunc_def gradfunc_def callback_defs ex_defs monad_defs)

subsection \<open>Steps of a sequence that returned\<close>

lemma bnd_Ok:
  "bnd m f s = (Ok y, s') \<Longrightarrow> \<exists>x s1. m s = (Ok x, s1) \<and> f x s1 = (Ok y, s')"
  by (cases "m s") (auto simp: bnd_def split: res.splits)

lemma thn_Ok:
  "thn m n s = (Ok y, s') \<Longrightarrow> \<exists>s1. m s = (Ok (), s1) \<and> n s1 = (Ok y, s')"
  unfolding thn_def by (drule bnd_Ok) auto

lemmas run_defs = run_def run_initial_def run_register_def run_instantiate_def run_execute_def
  run_finalize_def classify_exit_def add_params_def add_objectives_def linear_gradients_def
  add_eq_cons_def add_eq_con_def add_ineq_cons_def add_ineq_con_def create_local_meta_def
  objfunc_def gradfunc_def

lemma ex_run_ok: "fst (run ex_env (init_driver ex_model)) = Ok ()"
  by (simp add: run_defs callback_defs ex_defs monad_defs)

subsection \<open>The exit flag\<close>

text \<open>
  Claim C6. The exit classification never raises. It sets \<^verbatim>\<open>exit_flag\<close> to \<open>1\<close> when the
  solution's status code is present and is a success code (not above \<open>2\<close>), and to \<open>0\<close>
  when the code is above \<open>2\<close> or is missing. It is the last statement of \<^verbatim>\<open>run\<close>: a run
  that returns has classified the solution the engine returned.
\<close>

theorem exit_classification:
  "classify_exit sol s = (Ok (), s\<lparr>exit_flag := spec_exit_flag sol\<rparr>) \<and>
   (\<forall>s'. run env s = (Ok (), s') \<longrightarrow>
      (\<exists>sol. engine_result env = Inr sol \<and> exit_flag s' = spec_exit_flag sol \<and>
             pyopt_solution s' = Some sol))"
proof (intro conjI allI impI)
  show c: "classify_exit sol s = (Ok (), s\<lparr>exit_flag := spec_exit_flag sol\<rparr>)" for sol s
    by (simp add: classify_exit_def spec_exit_flag_def dict_get_def monad_defs split: option.splits)
  fix s'
  assume "run env s = (Ok (), s')"
  then obtain s3 sol s4 where ex: "run_execute env s3 = (Ok sol, s4)"
    and fin: "run_finalize env (map fst (params env)) sol s4 = (Ok (), s')"
    unfolding run_def by (blast dest: thn_Ok bnd_Ok)
  have er: "engine_result env = Inr sol"
    using ex by (auto simp: run_execute_def monad_defs split: prod.splits res.splits sum.splits)
  from fin obtain s5 where
    "classify_exit sol (s5\<lparr>pyopt_solution := Some sol\<rparr>) = (Ok (), s')"
    unfolding run_finalize_def by (auto dest!: thn_Ok simp: modify_def)
  then have "s' = s5\<lparr>pyopt_solution := Some sol, exit_flag := spec_exit_flag sol\<rparr>"
    using c [of sol "s5\<lparr>pyopt_solution := Some sol\<rparr>"] by simp
  then have "exit_flag s' = spec_exit_flag sol \<and> pyopt_solution s' = Some sol"
    by simp
  with er show "\<exists>sol. engine_result env = Inr sol \<and> exit_flag s' = spec_exit_flag sol \<and>
             pyopt_solution s' = Some sol"
    by blast
qed

theorem exit_classification_witness:
  "exit_flag (snd (run ex_env (init_driver ex_model))) = 1 \<and>
   exit_flag (snd (classify_exit \<lparr>getDVs = [], optInform = [(''value'', 3)]\<rparr> ex_running)) = 0 \<and>
   exit_flag (snd (classify_exit \<lparr>getDVs = [], optInform = []\<rparr> (ex_running\<lparr>exit_flag := 1\<rparr>))) = 0"
proof (intro conjI)
  obtain s' where r: "run ex_env (init_driver ex_model) = (Ok (), s')"
    using ex_run_ok by (cases "run ex_env (init_driver ex_model)") auto
  then obtain sol where "engine_result ex_env = Inr sol" and "exit_flag s' = spec_exit_flag sol"
    using exit_classification [where env = ex_env and s = "init_driver ex_model"] by blast
  then show "exit_flag (snd (run ex_env (init_driver ex_model))) = 1"
    using r by (auto simp: ex_env_def spec_exit_flag_def)
  show "exit_flag (snd (classify_exit \<lparr>getDVs = [], optInform = [(''value'', 3)]\<rparr> ex_running)) = 0"
    using exit_classification [where sol = "\<lparr>getDVs = [], optInform = [(''value'', 3)]\<rparr>"
        and s = ex_running]
    by (simp add: spec_exit_flag_def)
  show "exit_flag (snd (classify_exit \<lparr>getDVs = [], optInform = []\<rparr> (ex_running\<lparr>exit_flag := 1\<rparr>))) = 0"
    using exit_classification [where sol = "\<lparr>getDVs = [], optInform = []\<rparr>"
        and s = "ex_running\<lparr>exit_flag := 1\<rparr>"]
    by (simp add: spec_exit_flag_def)
qed

subsection \<open>The iteration counter\<close>

lemma run_initial_result:
  "iter_count (snd (run_initial env s)) = Some 0 \<and>
   metadata (snd (run_initial env s)) =
     Some \<lparr>meta_name = optimizer (options s), coord = [0]\<rparr> \<and>
   trace (snd (run_initial env s)) =
     trace s @ [SolveNonlinear (Some \<lparr>meta_name = optimizer (options s), coord = [0]\<rparr>)]"
  by (cases "solve_nonlinear env (Some \<lparr>meta_name = optimizer (options s), coord = [0]\<rparr>) (model s)")
     (auto simp: run_initial_def refresh_meta_def call_solve_nonlinear_def create_local_meta_def
       update_local_meta_def monad_defs Let_def split: option.splits)

lemma objfunc_iter_count:
  assumes n: "iter_count s = Some n"
  shows "iter_count (snd (objfunc env dv s)) =
           (if fst (apply_dvs env dv s) = Ok () then Some (n + 1) else Some n)"
proof -
  obtain r0 s0 where a: "apply_dvs env dv s = (r0, s0)" by (cases "apply_dvs env dv s")
  have s0: "iter_count s0 = Some n"
    using preservesD [OF preserves_apply_dvs, of iter_count env dv s] a n by simp
  show ?thesis
  proof (cases r0)
    case (Raise e)
    then show ?thesis
      using a s0 by (simp add: objfunc_def objfunc_body_def thn_def bnd_def print_exception_def)
  next
    case (Ok u)
    let ?s1 = "s0\<lparr>iter_count := Some (n + 1)\<rparr>"
    let ?m2 = "thn refresh_meta (call_solve_nonlinear env)"
    have adv: "advance_iter s0 = (Ok (), ?s1)"
      using s0 by (simp add: advance_iter_def)
    have p2: "preserves iter_count ?m2"
      by (intro preserves_thn preserves_refresh_meta preserves_call_solve_nonlinear) simp_all
    obtain r2 s2 where m2: "?m2 ?s1 = (r2, s2)" by (cases "?m2 ?s1")
    have s2: "iter_count s2 = Some (n + 1)"
      using preservesD [OF p2, of ?s1] m2 by simp
    obtain r3 s3 where rc: "call_record env s2 = (r3, s3)" by (cases "call_record env s2")
    have s3: "iter_count s3 = Some (n + 1)"
      using preservesD [OF preserves_call_record, of iter_count env s2] rc s2 by simp
    have m0: "thn (apply_dvs env dv) (thn advance_iter ?m2) s = (r2, s2)"
      using a Ok adv m2 by (simp add: thn_def bnd_def)
    show ?thesis
      using a Ok m0 rc s2 s3
      by (cases r2; cases r3) (simp_all add: objfunc_def objfunc_body_def print_exception_def)
  qed
qed

lemma objfunc_seq_iter_count:
  "iter_count s = Some n \<Longrightarrow>
     \<exists>k. k \<le> length dvs \<and> iter_count (snd (objfunc_seq env dvs s)) = Some (n + int k)"
proof (induction dvs arbitrary: s n)
  case Nil
  then show ?case by (simp add: ret_def)
next
  case (Cons dv dvs)
  obtain r1 s1 where o: "objfunc env dv s = (r1, s1)" by (cases "objfunc env dv s")
  obtain j where j: "j \<le> 1" "iter_count s1 = Some (n + int j)"
  proof (cases "fst (apply_dvs env dv s) = Ok ()")
    case True
    then have "iter_count s1 = Some (n + int 1)"
      using objfunc_iter_count [OF Cons.prems, of env dv] o by simp
    then show ?thesis using that [of 1] by simp
  next
    case False
    then have "iter_count s1 = Some (n + int 0)"
      using objfunc_iter_count [OF Cons.prems, of env dv] o by simp
    then show ?thesis using that [of 0] by simp
  qed
  show ?case
  proof (cases r1)
    case (Raise e)
    then have "iter_count (snd (objfunc_seq env (dv # dvs) s)) = Some (n + int j)"
      using o j by (simp add: bnd_def)
    with j show ?thesis by (intro exI [of _ j]) simp
  next
    case (Ok x)
    obtain k where k: "k \<le> length dvs"
      "iter_count (snd (objfunc_seq env dvs s1)) = Some (n + int j + int k)"
      using Cons.IH [OF j(2), of ] by blast
    have "iter_count (snd (objfunc_seq env (dv # dvs) s)) = Some (n + int (j + k))"
      using o Ok k by (simp add: bnd_def)
    with j k show ?thesis by (intro exI [of _ "j + k"]) simp
  qed
qed

text \<open>
  Claim C7, as the code has it. \<^verbatim>\<open>run\<close> sets the counter to zero and writes it into the
  metadata before the initial solve, which is the first call it makes. An invocation of the
  evaluation callback that has applied its design variables advances the counter by exactly
  one, whether or not the solve or the recorder then fails; an invocation that fails while
  applying the design variables leaves it as it was. Across a sequence of invocations the
  counter never decreases and grows by at most one per invocation.
\<close>

theorem iter_count_advances:
  "iter_count (snd (run_initial env s)) = Some 0 \<and>
   trace (snd (run_initial env s)) =
     trace s @ [SolveNonlinear (Some \<lparr>meta_name = optimizer (options s), coord = [0]\<rparr>)] \<and>
   (\<forall>n. iter_count s = Some n \<and> fst (apply_dvs env dv s) = Ok () \<longrightarrow>
        iter_count (snd (objfunc env dv s)) = Some (n + 1)) \<and>
   (\<forall>n. iter_count s = Some n \<and> fst (apply_dvs env dv s) \<noteq> Ok () \<longrightarrow>
        iter_count (snd (objfunc env dv s)) = Some n) \<and>
   (\<forall>n. iter_count s = Some n \<longrightarrow>
        (\<exists>k. k \<le> length dvs \<and> iter_count (snd (objfunc_seq env dvs s)) = Some (n + int k)))"
  using run_initial_result [of env s] objfunc_iter_count [of s _ env dv]
    objfunc_seq_iter_count [of s _ dvs env]
  by simp

lemma ex_apply_dvs: "fst (apply_dvs ex_env [(''x'', [2])] ex_running) = Ok ()"
  by (simp add: callback_defs ex_defs monad_defs)

lemma ex_apply_dvs_no_dv: "fst (apply_dvs ex_env [] ex_running) = Raise (KeyError ''x'')"
  by (simp add: callback_defs ex_defs monad_defs)

lemma ex_iter_count: "iter_count ex_running = Some 0"
  by (simp add: ex_defs)

theorem iter_count_advances_witness:
  "iter_count (snd (objfunc ex_env [(''x'', [2])] ex_running)) = Some 1 \<and>
   iter_count (snd (objfunc ex_env [] ex_running)) = Some 0 \<and>
   (\<exists>k. k \<le> 3 \<and>
      iter_count (snd (objfunc_seq ex_env [[(''x'', [2])], [], [(''x'', [1])]] ex_running)) =
        Some (int k))"
proof (intro conjI)
  show "iter_count (snd (objfunc ex_env [(''x'', [2])] ex_running)) = Some 1"
    using iter_count_advances [where env = ex_env and s = ex_running and dv = "[(''x'', [2])]"]
      ex_apply_dvs ex_iter_count by simp
  show "iter_count (snd (objfunc ex_env [] ex_running)) = Some 0"
    using iter_count_advances [where env = ex_env and s = ex_running and dv = "[]"]
      ex_apply_dvs_no_dv ex_iter_count by simp
  show "\<exists>k. k \<le> 3 \<and>
      iter_count (snd (objfunc_seq ex_env [[(''x'', [2])], [], [(''x'', [1])]] ex_running)) =
        Some (int k)"
    using iter_count_advances [where env = ex_env and s = ex_running
        and dvs = "[[(''x'', [2])], [], [(''x'', [1])]]"] ex_iter_count
    by (simp del: objfunc_seq.simps add: numeral_3_eq_3)
qed

text \<open>
  The claim as it is worded fails: an invocation whose design-point dictionary lacks a
  design variable, or whose parameter write is refused by the model, returns the fail flag
  and leaves the counter where it was.
\<close>

theorem iter_count_counterexample:
  "iter_count ex_running = Some 0 \<and>
   fst (objfunc ex_env [] ex_running) = Ok ([], 1) \<and>
   iter_count (snd (objfunc ex_env [] ex_running)) = Some 0 \<and>
   fst (objfunc (ex_env\<lparr>set_param := (\<lambda>nm v m. (Some (OtherException ''refused''), m))\<rparr>)
          [(''x'', [2])] ex_running) = Ok ([], 1) \<and>
   iter_count (snd (objfunc (ex_env\<lparr>set_param := (\<lambda>nm v m. (Some (OtherException ''refused''), m))\<rparr>)
          [(''x'', [2])] ex_running)) = Some 0"
  by (simp add: objfunc_def print_exception_def callback_defs ex_defs monad_defs)

subsection \<open>The complex step on the two-output linear model\<close>

lemma upt_2: "[0..<2] = [0, Suc 0]"
  by (simp add: numeral_2_eq_2)

text \<open>
  Claim C8. For every step \<open>h\<close> other than zero and at every point \<open>(x0, x1)\<close>, the
  complex-step Jacobian of \<open>y[0] = 2 x[0] + 7 x[1]\<close>, \<open>y[1] = 5 x[0] - 3 x[1]\<close> is the
  coefficient matrix \<open>[[2, 7], [5, -3]]\<close>; in exact arithmetic the equality is exact.
\<close>

theorem complex_step_simple_array_model:
  "h \<noteq> 0 \<Longrightarrow> complex_step h simple_array_model [x0, x1] = [[2, 7], [5, - 3]]"
  by (simp add: complex_step_def simple_array_model_def perturb_def upt_2 Let_def)

theorem complex_step_simple_array_model_witness:
  "complex_step (1 / 10 ^ 30) simple_array_model [1, 1] = [[2, 7], [5, - 3]]"
  by (rule complex_step_simple_array_model) simp

subsection \<open>The phases of a run\<close>

lemma bnd_ret: "bnd (ret x) f = f x"
  by (simp add: bnd_def ret_def)

lemma bnd_raise: "bnd (raise e) f = raise e"
  by (simp add: bnd_def raise_def)

lemma thn_assoc: "thn (thn a b) c = thn a (thn b c)"
  by (auto simp: thn_def bnd_def fun_eq_iff split: prod.splits res.splits)

lemma con_group_names_append:
  "con_group_names (xs @ ys) = con_group_names xs @ con_group_names ys"
  by (induction xs rule: con_group_names.induct) simp_all

lemma con_group_names_none: "list_all (\<lambda>ev. \<not> is_con_group ev) t \<Longrightarrow> con_group_names t = []"
  by (induction t rule: con_group_names.induct) simp_all

lemma names_get_objectives: "map fst (get_objectives env m) = objectives env"
  by (simp add: get_objectives_def comp_def)

lemma names_get_constraints:
  "map fst (get_constraints env (Some k) (Some False) m) = nonlinear_names env k"
  by (simp add: get_constraints_def nonlinear_names_def con_selected_def comp_def
      case_prod_unfold)

lemma preserves_run_initial:
  assumes "\<And>s t. f (s\<lparr>trace := t\<rparr>) = f s" and "\<And>s m. f (s\<lparr>model := m\<rparr>) = f s"
    and "\<And>s n. f (s\<lparr>iter_count := n\<rparr>) = f s" and "\<And>s n. f (s\<lparr>metadata := n\<rparr>) = f s"
    and "\<And>s n. f (s\<lparr>pyopt_solution := n\<rparr>) = f s"
  shows "preserves f (run_initial env)"
  unfolding run_initial_def
  by (intro preserves_thn preserves_modify preserves_refresh_meta preserves_call_solve_nonlinear
      assms)

lemma adds_only_run_initial:
  assumes "\<And>md. P (SolveNonlinear md)"
  shows "adds_only P (run_initial env)"
  unfolding run_initial_def
  by (intro adds_only_thn adds_only_modify adds_only_refresh_meta adds_only_call_solve_nonlinear
      assms) simp_all

lemma preserves_add_eq_con:
  assumes "\<And>s t. f (s\<lparr>trace := t\<rparr>) = f s"
  shows "preserves f (add_eq_con env pl nm)"
  unfolding add_eq_con_def
  by (cases "relevant env nm")
     (auto intro!: preserves_bnd preserves_dict_get preserves_get_st preserves_emit
       preserves_raise preserves_ret assms)

lemma preserves_add_ineq_con:
  assumes "\<And>s t. f (s\<lparr>trace := t\<rparr>) = f s"
  shows "preserves f (add_ineq_con env pl nm)"
  unfolding add_ineq_con_def
  by (cases "relevant env nm")
     (auto intro!: preserves_bnd preserves_dict_get preserves_get_st preserves_emit
       preserves_raise preserves_ret assms)

lemma adds_only_add_eq_con:
  assumes "\<And>sz lo up lin r j. relevant env nm = Some r \<Longrightarrow>
             P (AddConGroup nm sz lo up lin (r \<inter> set pl) j)"
  shows "adds_only P (add_eq_con env pl nm)"
  unfolding add_eq_con_def
  by (cases "relevant env nm")
     (auto intro!: adds_only_bnd adds_only_dict_get adds_only_get_st adds_only_emit
       adds_only_raise adds_only_ret assms simp: bnd_ret bnd_raise)

lemma adds_only_add_ineq_con:
  assumes "\<And>sz lo up lin r j. relevant env nm = Some r \<Longrightarrow>
             P (AddConGroup nm sz lo up lin (r \<inter> set pl) j)"
  shows "adds_only P (add_ineq_con env pl nm)"
  unfolding add_ineq_con_def
  by (cases "relevant env nm")
     (auto intro!: adds_only_bnd adds_only_dict_get adds_only_get_st adds_only_emit
       adds_only_raise adds_only_ret assms simp: bnd_ret bnd_raise)

lemma preserves_run_register:
  assumes tr: "\<And>s t. f (s\<lparr>trace := t\<rparr>) = f s" and "\<And>s n. f (s\<lparr>param_list := n\<rparr>) = f s"
    and "\<And>s n. f (s\<lparr>quantities := n\<rparr>) = f s" and "\<And>s n. f (s\<lparr>lin_jacs := n\<rparr>) = f s"
  shows "preserves f (run_register env pl)"
  unfolding run_register_def add_params_def add_objectives_def linear_gradients_def
    add_eq_cons_def add_ineq_cons_def
  by (auto intro!: preserves_bnd preserves_thn preserves_get_st preserves_emit preserves_modify
      preserves_for_each preserves_call_calc_gradient preserves_ret preserves_add_eq_con
      preserves_add_ineq_con assms)

lemma adds_only_run_register:
  assumes reg: "\<And>ev. registration_event ev \<Longrightarrow> P ev"
    and con: "\<And>nm sz lo up lin r j. relevant env nm = Some r \<Longrightarrow>
             P (AddConGroup nm sz lo up lin (r \<inter> set pl) j)"
  shows "adds_only P (run_register env pl)"
  unfolding run_register_def add_params_def add_objectives_def linear_gradients_def
    add_eq_cons_def add_ineq_cons_def
  by (auto intro!: adds_only_bnd adds_only_thn adds_only_get_st adds_only_emit adds_only_modify
      adds_only_for_each adds_only_call_calc_gradient adds_only_ret adds_only_add_eq_con
      adds_only_add_ineq_con reg con)

lemma preserves_run_instantiate:
  assumes "\<And>s t. f (s\<lparr>trace := t\<rparr>) = f s"
  shows "preserves f (run_instantiate env)"
  unfolding run_instantiate_def
  by (auto intro!: preserves_bnd preserves_thn preserves_get_st preserves_emit preserves_for_each
      preserves_ret preserves_raise assms)

lemma adds_only_run_instantiate:
  assumes "\<And>k v. P (SetOption k v)"
  shows "adds_only P (run_instantiate env)"
  unfolding run_instantiate_def
  by (auto intro!: adds_only_bnd adds_only_thn adds_only_get_st adds_only_emit adds_only_for_each
      adds_only_ret adds_only_raise assms)

lemma preserves_run_execute:
  assumes "\<And>s t. f (s\<lparr>trace := t\<rparr>) = f s" and "\<And>s m. f (s\<lparr>model := m\<rparr>) = f s"
    and "\<And>s n. f (s\<lparr>iter_count := n\<rparr>) = f s" and "\<And>s n. f (s\<lparr>metadata := n\<rparr>) = f s"
    and "\<And>s n. f (s\<lparr>p_problem := n\<rparr>) = f s"
  shows "preserves f (run_execute env)"
  unfolding run_execute_def
  by (cases "engine_result env")
     (auto intro!: preserves_bnd preserves_thn preserves_get_st preserves_emit preserves_modify
       preserves_run_script preserves_ret preserves_raise assms)

lemma adds_only_run_execute:
  assumes "\<And>ev. callback_event ev \<Longrightarrow> P ev" and "\<And>m. P (CallOptimizer m)"
  shows "adds_only P (run_execute env)"
  unfolding run_execute_def
  by (cases "engine_result env")
     (auto intro!: adds_only_bnd adds_only_thn adds_only_get_st adds_only_emit adds_only_modify
       adds_only_run_script adds_only_ret adds_only_raise assms)

lemma preserves_classify_exit:
  assumes "\<And>s n. f (s\<lparr>exit_flag := n\<rparr>) = f s"
  shows "preserves f (classify_exit sol)"
  by (simp add: preserves_def classify_exit_def dict_get_def monad_defs assms
      split: option.splits)

lemma adds_only_classify_exit: "adds_only P (classify_exit sol)"
  by (simp add: adds_only_def classify_exit_def dict_get_def monad_defs split: option.splits)

lemma preserves_run_finalize:
  assumes "\<And>s t. f (s\<lparr>trace := t\<rparr>) = f s" and "\<And>s m. f (s\<lparr>model := m\<rparr>) = f s"
    and "\<And>s n. f (s\<lparr>pyopt_solution := n\<rparr>) = f s" and "\<And>s n. f (s\<lparr>exit_flag := n\<rparr>) = f s"
  shows "preserves f (run_finalize env pl sol)"
  unfolding run_finalize_def
  by (auto intro!: preserves_bnd preserves_thn preserves_get_st preserves_emit preserves_modify
      preserves_for_each preserves_dict_get preserves_call_set_param
      preserves_call_solve_nonlinear preserves_classify_exit preserves_ret assms)

lemma adds_only_run_finalize:
  assumes "\<And>ev. callback_event ev \<Longrightarrow> P ev" and "\<And>sol. P (PrintSolution sol)"
  shows "adds_only P (run_finalize env pl sol)"
  unfolding run_finalize_def
  by (auto intro!: adds_only_bnd adds_only_thn adds_only_get_st adds_only_emit adds_only_modify
      adds_only_for_each adds_only_dict_get adds_only_call_set_param
      adds_only_call_solve_nonlinear adds_only_classify_exit adds_only_ret assms)

lemma adds_only_run:
  assumes nc: "\<And>ev. \<not> is_con_group ev \<Longrightarrow> P ev"
    and con: "\<And>nm sz lo up lin r j. relevant env nm = Some r \<Longrightarrow>
             P (AddConGroup nm sz lo up lin (r \<inter> set (map fst (params env))) j)"
  shows "adds_only P (run env)"
proof -
  have cb: "P ev" if "callback_event ev" for ev
    using that by (intro nc) (cases ev, simp_all)
  have rg: "P ev" if "registration_event ev" for ev
    using that by (intro nc) (cases ev, simp_all)
  show ?thesis
    unfolding run_def
    by (intro adds_only_thn adds_only_bnd adds_only_run_initial adds_only_run_register
        adds_only_run_instantiate adds_only_run_execute adds_only_run_finalize cb rg con nc)
      simp_all
qed

subsection \<open>An optimizer that is not available\<close>

lemma run_instantiate_unavailable:
  "optimizer (options s) \<notin> set (pyoptsparse_exports env) \<Longrightarrow>
     run_instantiate env s =
       (Raise (ImportError (''Optimizer '' @ optimizer (options s) @
                 '' is not available in this installation.'')), s)"
  by (simp add: run_instantiate_def monad_defs)

lemma filter_none: "list_all (\<lambda>ev. \<not> P ev) t \<Longrightarrow> filter P t = []"
  by (induction t) simp_all

text \<open>
  Claim C3, as the code has it. When the requested optimizer is not among those the
  optimizer library provides, \<^verbatim>\<open>run\<close> raises: the import error, unless the initial solve
  or the registration has raised before. By then the model has been solved exactly once,
  at the initial point; the optimizer has not been called, so no callback has run, and
  \<^verbatim>\<open>self._problem\<close> has not been set.
\<close>

theorem run_unavailable_optimizer:
  assumes "optimizer (options s) \<notin> set (pyoptsparse_exports env)"
  shows "\<exists>e s'. run env s = (Raise e, s') \<and>
           (fst (thn (run_initial env) (run_register env (map fst (params env))) s) = Ok () \<longrightarrow>
              e = ImportError (''Optimizer '' @ optimizer (options s) @
                    '' is not available in this installation.'')) \<and>
           filter is_solve (trace s') =
             filter is_solve (trace s) @
               [SolveNonlinear (Some \<lparr>meta_name = optimizer (options s), coord = [0]\<rparr>)] \<and>
           filter is_call_optimizer (trace s') = filter is_call_optimizer (trace s) \<and>
           p_problem s' = p_problem s"
proof -
  let ?pl = "map fst (params env)"
  let ?md = "SolveNonlinear (Some \<lparr>meta_name = optimizer (options s), coord = [0]\<rparr>)"
  let ?P = "\<lambda>ev. \<not> is_solve ev \<and> \<not> is_call_optimizer ev"
  obtain r0 s0 where i: "run_initial env s = (r0, s0)" by (cases "run_initial env s")
  have t0: "trace s0 = trace s @ [?md]"
    using run_initial_result [of env s] i by simp
  have o0: "options s0 = options s" and p0: "p_problem s0 = p_problem s"
    using preservesD [OF preserves_run_initial, of options env s]
      preservesD [OF preserves_run_initial, of p_problem env s] i by simp_all
  obtain r1 s1 where g: "run_register env ?pl s0 = (r1, s1)" by (cases "run_register env ?pl s0")
  have "adds_only ?P (run_register env ?pl)"
    by (rule adds_only_run_register) (case_tac ev, simp_all)
  then obtain t where t: "trace s1 = trace s0 @ t" "list_all ?P t"
    using adds_onlyD [of ?P "run_register env ?pl" s0] g by auto
  have t1: "filter is_solve t = []" "filter is_call_optimizer t = []"
    using t(2) by (auto intro!: filter_none simp: list_all_iff)
  have o1: "options s1 = options s" and p1: "p_problem s1 = p_problem s"
    using preservesD [OF preserves_run_register, of options env ?pl s0]
      preservesD [OF preserves_run_register, of p_problem env ?pl s0] g o0 p0 by simp_all
  have un: "run_instantiate env s1 =
       (Raise (ImportError (''Optimizer '' @ optimizer (options s) @
                 '' is not available in this installation.'')), s1)"
    using run_instantiate_unavailable [of s1 env] assms o1 by simp
  show ?thesis
  proof (cases r0)
    case (Raise e)
    then have "run env s = (Raise e, s0)"
      and "fst (thn (run_initial env) (run_register env ?pl) s) \<noteq> Ok ()"
      using i by (simp_all add: run_def thn_def bnd_def)
    then show ?thesis using t0 p0 by simp
  next
    case (Ok u)
    show ?thesis
    proof (cases r1)
      case (Raise e)
      then have "run env s = (Raise e, s1)"
        and "fst (thn (run_initial env) (run_register env ?pl) s) \<noteq> Ok ()"
        using i g Ok by (simp_all add: run_def thn_def bnd_def)
      then show ?thesis using t0 t t1 p1 by simp
    next
      case Ok2: (Ok u2)
      then have "run env s = (Raise (ImportError (''Optimizer '' @ optimizer (options s) @
                 '' is not available in this installation.'')), s1)"
        using i g Ok un by (simp add: run_def thn_def bnd_def)
      then show ?thesis using t0 t t1 p1 by simp
    qed
  qed
qed

lemma ex_register_unavailable:
  "fst (thn (run_initial (ex_env\<lparr>pyoptsparse_exports := []\<rparr>))
          (run_register (ex_env\<lparr>pyoptsparse_exports := []\<rparr>)
             (map fst (params (ex_env\<lparr>pyoptsparse_exports := []\<rparr>)))) (init_driver ex_model)) = Ok ()"
  by (simp add: run_defs callback_defs ex_defs monad_defs)

theorem run_unavailable_optimizer_witness:
  "fst (run (ex_env\<lparr>pyoptsparse_exports := []\<rparr>) (init_driver ex_model)) =
     Raise (ImportError ''Optimizer SNOPT is not available in this installation.'') \<and>
   filter is_solve (trace (snd (run (ex_env\<lparr>pyoptsparse_exports := []\<rparr>) (init_driver ex_model)))) =
     [SolveNonlinear (Some \<lparr>meta_name = ''SNOPT'', coord = [0]\<rparr>)] \<and>
   filter is_call_optimizer
     (trace (snd (run (ex_env\<lparr>pyoptsparse_exports := []\<rparr>) (init_driver ex_model)))) = [] \<and>
   p_problem (snd (run (ex_env\<lparr>pyoptsparse_exports := []\<rparr>) (init_driver ex_model))) = None"
proof -
  let ?env = "ex_env\<lparr>pyoptsparse_exports := []\<rparr>"
  have "optimizer (options (init_driver ex_model)) \<notin> set (pyoptsparse_exports ?env)"
    by simp
  from run_unavailable_optimizer [OF this] ex_register_unavailable
  show ?thesis
    by (auto simp: init_driver_def)
qed

text \<open>
  The claim as it is worded fails: with an optimizer that is not available, the import
  error is raised after the model has been solved at the initial point.
\<close>

theorem run_unavailable_optimizer_counterexample:
  "fst (run (ex_env\<lparr>pyoptsparse_exports := []\<rparr>) (init_driver ex_model)) =
     Raise (ImportError ''Optimizer SNOPT is not available in this installation.'') \<and>
   filter is_solve (trace (snd (run (ex_env\<lparr>pyoptsparse_exports := []\<rparr>) (init_driver ex_model)))) =
     [SolveNonlinear (Some \<lparr>meta_name = ''SNOPT'', coord = [0]\<rparr>)]"
  by (simp add: run_defs callback_defs ex_defs monad_defs)

subsection \<open>The constraint groups of a run\<close>

lemma con_group_names_unchanged:
  assumes "adds_only (\<lambda>ev. \<not> is_con_group ev) m" and "m s = (r, s')"
  shows "con_group_names (trace s') = con_group_names (trace s)"
  using adds_onlyD [OF assms(1), of s] assms(2)
  by (auto simp: con_group_names_append con_group_names_none)

lemma add_eq_con_names:
  "add_eq_con env pl nm s = (Ok (), s') \<Longrightarrow>
     con_group_names (trace s') = con_group_names (trace s) @ [nm]"
  by (auto simp: add_eq_con_def dict_get_def monad_defs con_group_names_append
      split: option.splits if_splits)

lemma add_ineq_con_names:
  "add_ineq_con env pl nm s = (Ok (), s') \<Longrightarrow>
     con_group_names (trace s') = con_group_names (trace s) @ [nm]"
  by (auto simp: add_ineq_con_def dict_get_def monad_defs con_group_names_append
      split: option.splits if_splits)

lemma for_each_con_names:
  assumes step: "\<And>nm s s'. f nm s = (Ok (), s') \<Longrightarrow>
                   con_group_names (trace s') = con_group_names (trace s) @ [nm]"
  shows "for_each ns f s = (Ok (), s') \<Longrightarrow>
           con_group_names (trace s') = con_group_names (trace s) @ ns"
proof (induction ns arbitrary: s)
  case Nil
  then show ?case by (simp add: ret_def)
next
  case (Cons n ns)
  from Cons.prems obtain s1 where "f n s = (Ok (), s1)" and "for_each ns f s1 = (Ok (), s')"
    by (auto dest: thn_Ok)
  then show ?case
    using step [of n s s1] Cons.IH [of s1] by simp
qed

lemma add_eq_cons_names:
  "add_eq_cons env pl s = (Ok (), s') \<Longrightarrow>
     con_group_names (trace s') = con_group_names (trace s) @ nonlinear_names env Eq"
  using for_each_con_names [of "add_eq_con env pl", OF add_eq_con_names]
  by (auto simp: add_eq_cons_def names_get_constraints get_st_def modify_def bnd_def
      dest!: thn_Ok)

lemma add_ineq_cons_names:
  "add_ineq_cons env pl s = (Ok (), s') \<Longrightarrow>
     con_group_names (trace s') = con_group_names (trace s) @ nonlinear_names env Ineq"
  using for_each_con_names [of "add_ineq_con env pl", OF add_ineq_con_names]
  by (auto simp: add_ineq_cons_def names_get_constraints get_st_def modify_def bnd_def
      dest!: thn_Ok)

lemma adds_only_add_params: "(\<And>ev. registration_event ev \<Longrightarrow> P ev) \<Longrightarrow> adds_only P (add_params env)"
  unfolding add_params_def
  by (auto intro!: adds_only_bnd adds_only_thn adds_only_get_st adds_only_emit adds_only_modify
      adds_only_for_each)

lemma adds_only_add_objectives:
  "(\<And>ev. registration_event ev \<Longrightarrow> P ev) \<Longrightarrow> adds_only P (add_objectives env)"
  unfolding add_objectives_def
  by (auto intro!: adds_only_bnd adds_only_thn adds_only_get_st adds_only_emit adds_only_modify
      adds_only_for_each)

lemma adds_only_linear_gradients:
  "(\<And>ev. registration_event ev \<Longrightarrow> P ev) \<Longrightarrow> adds_only P (linear_gradients env pl)"
  unfolding linear_gradients_def
  by (auto intro!: adds_only_bnd adds_only_thn adds_only_get_st adds_only_modify
      adds_only_call_calc_gradient adds_only_ret)

lemma registration_not_con_group: "registration_event ev \<Longrightarrow> \<not> is_con_group ev"
  by (cases ev) simp_all

lemma callback_not_con_group: "callback_event ev \<Longrightarrow> \<not> is_con_group ev"
  by (cases ev) simp_all

lemma run_register_con_groups:
  assumes "run_register env pl s = (Ok (), s')"
  shows "con_group_names (trace s') =
           con_group_names (trace s) @ nonlinear_names env Eq @ nonlinear_names env Ineq"
proof -
  from assms obtain s1 s2 s3 s4 s5 where
    1: "emit (NewOptimization (title (options s))) s = (Ok (), s1)" and
    2: "add_params env s1 = (Ok (), s2)" and
    3: "add_objectives env s2 = (Ok (), s3)" and
    4: "linear_gradients env pl s3 = (Ok (), s4)" and
    5: "add_eq_cons env pl s4 = (Ok (), s5)" and
    6: "add_ineq_cons env pl s5 = (Ok (), s')"
    unfolding run_register_def
    by (auto simp: bnd_def get_st_def dest!: thn_Ok)
  have "con_group_names (trace s1) = con_group_names (trace s)"
    using 1 by (auto simp: emit_def con_group_names_append)
  moreover have "con_group_names (trace s2) = con_group_names (trace s1)"
    by (rule con_group_names_unchanged [OF adds_only_add_params 2])
       (rule registration_not_con_group)
  moreover have "con_group_names (trace s3) = con_group_names (trace s2)"
    by (rule con_group_names_unchanged [OF adds_only_add_objectives 3])
       (rule registration_not_con_group)
  moreover have "con_group_names (trace s4) = con_group_names (trace s3)"
    by (rule con_group_names_unchanged [OF adds_only_linear_gradients 4])
       (rule registration_not_con_group)
  ultimately show ?thesis
    using add_eq_cons_names [OF 5] add_ineq_cons_names [OF 6] by simp
qed

lemma run_con_groups:
  assumes "run env s = (Ok (), s')"
  shows "con_group_names (trace s') =
           con_group_names (trace s) @ nonlinear_names env Eq @ nonlinear_names env Ineq"
proof -
  let ?pl = "map fst (params env)"
  from assms obtain s1 s2 s3 sol s4 where
    1: "run_initial env s = (Ok (), s1)" and
    2: "run_register env ?pl s1 = (Ok (), s2)" and
    3: "run_instantiate env s2 = (Ok (), s3)" and
    4: "run_execute env s3 = (Ok sol, s4)" and
    5: "run_finalize env ?pl sol s4 = (Ok (), s')"
    unfolding run_def by (blast dest: thn_Ok bnd_Ok)
  have "con_group_names (trace s1) = con_group_names (trace s)"
    by (rule con_group_names_unchanged [OF adds_only_run_initial 1]) simp
  moreover have "con_group_names (trace s3) = con_group_names (trace s2)"
    by (rule con_group_names_unchanged [OF adds_only_run_instantiate 3]) simp
  moreover have "con_group_names (trace s4) = con_group_names (trace s3)"
    by (rule con_group_names_unchanged [OF adds_only_run_execute 4])
       (simp_all add: callback_not_con_group)
  moreover have "con_group_names (trace s') = con_group_names (trace s4)"
    by (rule con_group_names_unchanged [OF adds_only_run_finalize 5])
       (simp_all add: callback_not_con_group)
  ultimately show ?thesis
    using run_register_con_groups [OF 2] by simp
qed

text \<open>
  Claim C5. Every constraint group that \<^verbatim>\<open>run\<close> registers carries as \<^verbatim>\<open>wrt\<close> the
  intersection of that constraint's relevant set with the identifiers of the registered
  design variables, and nothing else in the run registers a constraint group. When the
  registration completes, the groups registered are the nonlinear equality constraints
  followed by the nonlinear inequality constraints, each exactly once.
\<close>

theorem constraint_groups_wrt:
  "(\<exists>t. trace (snd (run env s)) = trace s @ t \<and> list_all (wrt_ok env) t) \<and>
   (\<forall>s'. run_register env (map fst (params env)) s = (Ok (), s') \<longrightarrow>
      con_group_names (trace s') =
        con_group_names (trace s) @ nonlinear_names env Eq @ nonlinear_names env Ineq) \<and>
   (\<forall>s'. run env s = (Ok (), s') \<longrightarrow>
      con_group_names (trace s') =
        con_group_names (trace s) @ nonlinear_names env Eq @ nonlinear_names env Ineq)"
proof (intro conjI allI impI)
  have "adds_only (wrt_ok env) (run env)"
    by (rule adds_only_run) (case_tac ev, simp_all)
  then show "\<exists>t. trace (snd (run env s)) = trace s @ t \<and> list_all (wrt_ok env) t"
    by (rule adds_onlyD)
qed (rule run_register_con_groups, assumption, rule run_con_groups, assumption)

lemma ex_nonlinear_names:
  "nonlinear_names ex_env Eq = [''con_eq'']" "nonlinear_names ex_env Ineq = [''con_in'']"
  by (simp_all add: nonlinear_names_def ex_env_def)

lemma ex_run_register:
  "fst (run_register ex_env (map fst (params ex_env)) (init_driver ex_model)) = Ok ()"
  by (simp add: run_defs callback_defs ex_defs monad_defs)

theorem constraint_groups_wrt_witness:
  "con_group_names (trace (snd (run_register ex_env (map fst (params ex_env))
      (init_driver ex_model)))) = [''con_eq'', ''con_in''] \<and>
   list_all (wrt_ok ex_env) (trace (snd (run ex_env (init_driver ex_model)))) \<and>
   con_group_names (trace (snd (run ex_env (init_driver ex_model)))) = [''con_eq'', ''con_in''] \<and>
   AddConGroup ''con_in'' 1 None (Some 0) False {''x''} None \<in>
     set (trace (snd (run ex_env (init_driver ex_model)))) \<and>
   relevant ex_env ''con_in'' = Some {''x'', ''p''}"
proof (intro conjI)
  obtain s' where r: "run ex_env (init_driver ex_model) = (Ok (), s')"
    using ex_run_ok by (cases "run ex_env (init_driver ex_model)") auto
  have t: "trace (init_driver ex_model) = []"
    by (simp add: init_driver_def)
  obtain s1 where "run_register ex_env (map fst (params ex_env)) (init_driver ex_model) = (Ok (), s1)"
    using ex_run_register
    by (cases "run_register ex_env (map fst (params ex_env)) (init_driver ex_model)") auto
  then show "con_group_names (trace (snd (run_register ex_env (map fst (params ex_env))
      (init_driver ex_model)))) = [''con_eq'', ''con_in'']"
    using constraint_groups_wrt [of ex_env "init_driver ex_model"] t ex_nonlinear_names by simp
  show "list_all (wrt_ok ex_env) (trace (snd (run ex_env (init_driver ex_model))))"
    using constraint_groups_wrt [of ex_env "init_driver ex_model"] t by auto
  show "con_group_names (trace (snd (run ex_env (init_driver ex_model)))) = [''con_eq'', ''con_in'']"
    using constraint_groups_wrt [of ex_env "init_driver ex_model"] r t ex_nonlinear_names by simp
  show "AddConGroup ''con_in'' 1 None (Some 0) False {''x''} None \<in>
     set (trace (snd (run ex_env (init_driver ex_model))))"
    by (simp add: run_defs callback_defs ex_defs monad_defs)
  show "relevant ex_env ''con_in'' = Some {''x'', ''p''}"
    by (simp add: ex_env_def)
qed

subsection \<open>The response list\<close>

lemma run_register_quantities:
  assumes "run_register env pl s = (Ok (), s')"
  shows "quantities s' = spec_quantities env"
proof -
  from assms obtain s1 s2 s3 s4 s5 where
    1: "emit (NewOptimization (title (options s))) s = (Ok (), s1)" and
    2: "add_params env s1 = (Ok (), s2)" and
    3: "add_objectives env s2 = (Ok (), s3)" and
    4: "linear_gradients env pl s3 = (Ok (), s4)" and
    5: "add_eq_cons env pl s4 = (Ok (), s5)" and
    6: "add_ineq_cons env pl s5 = (Ok (), s')"
    unfolding run_register_def
    by (auto simp: bnd_def get_st_def dest!: thn_Ok)
  have e: "preserves quantities (for_each ns (\<lambda>nm. emit (AddObj nm)))" for ns
    by (intro preserves_for_each preserves_emit) simp
  have q3: "quantities s3 = objectives env"
    using 3 preservesD [OF e, of "objectives env" "s2\<lparr>quantities := objectives env\<rparr>"]
    by (auto simp: add_objectives_def names_get_objectives get_st_def modify_def bnd_def
        dest!: thn_Ok)
  have "preserves quantities (linear_gradients env pl)"
    unfolding linear_gradients_def
    by (auto intro!: preserves_bnd preserves_get_st preserves_call_calc_gradient
        preserves_modify preserves_ret)
  then have q4: "quantities s4 = objectives env"
    using preservesD [of quantities "linear_gradients env pl" s3] 4 q3 by simp
  have pe: "preserves quantities (for_each ns (add_eq_con env pl))" for ns
    by (intro preserves_for_each preserves_add_eq_con) simp
  have q5: "quantities s5 = objectives env @ nonlinear_names env Eq"
    using 5 q4
      preservesD [OF pe, of "nonlinear_names env Eq"
        "s4\<lparr>quantities := quantities s4 @ nonlinear_names env Eq\<rparr>"]
    by (auto simp: add_eq_cons_def names_get_constraints get_st_def modify_def bnd_def
        dest!: thn_Ok)
  have pi: "preserves quantities (for_each ns (add_ineq_con env pl))" for ns
    by (intro preserves_for_each preserves_add_ineq_con) simp
  show ?thesis
    using 6 q5
      preservesD [OF pi, of "nonlinear_names env Ineq"
        "s5\<lparr>quantities := quantities s5 @ nonlinear_names env Ineq\<rparr>"]
    by (auto simp: add_ineq_cons_def names_get_constraints get_st_def modify_def bnd_def
        spec_quantities_def dest!: thn_Ok)
qed

lemma preserves_quantities_rest:
  "preserves quantities
     (thn (run_instantiate env) (bnd (run_execute env) (run_finalize env pl)))"
  by (intro preserves_thn preserves_bnd preserves_run_instantiate preserves_run_execute
      preserves_run_finalize) simp_all

lemma filter_names_disjoint:
  assumes "distinct (map fst xs)" and "\<And>x. \<not> (P x \<and> Q x)"
  shows "set (map fst (filter P xs)) \<inter> set (map fst (filter Q xs)) = {}"
proof (rule ccontr)
  assume "set (map fst (filter P xs)) \<inter> set (map fst (filter Q xs)) \<noteq> {}"
  then obtain n a b where "(n, a) \<in> set xs" "P (n, a)" "(n, b) \<in> set xs" "Q (n, b)"
    by auto
  then have "a = b"
    using assms(1) by (meson eq_key_imp_eq_value)
  then show False
    using \<open>P (n, a)\<close> \<open>Q (n, b)\<close> assms(2) by blast
qed

lemma quantities_no_linear:
  assumes "distinct_responses env"
  shows "set (spec_quantities env) \<inter> set (linear_names env) = {}"
proof -
  have d: "distinct (map fst (constraints env))"
    and o: "set (objectives env) \<inter> set (map fst (constraints env)) = {}"
    using assms by (simp_all add: distinct_responses_def)
  have "set (linear_names env) \<subseteq> set (map fst (constraints env))"
    by (auto simp: linear_names_def)
  with o have 1: "set (objectives env) \<inter> set (linear_names env) = {}"
    by blast
  have 2: "set (nonlinear_names env k) \<inter> set (linear_names env) = {}" for k
    unfolding nonlinear_names_def linear_names_def
    by (rule filter_names_disjoint [OF d]) auto
  show ?thesis
    using 1 2 by (auto simp: spec_quantities_def)
qed

text \<open>
  Claim C9. When the registration phase of \<^verbatim>\<open>run\<close> has completed, \<^verbatim>\<open>self.quantities\<close>
  is, in order, the objectives, the nonlinear equality constraints and the nonlinear
  inequality constraints, each group in declaration order, and it is the same list when
  \<^verbatim>\<open>run\<close> ends; neither callback changes it. When every response has an identifier of
  its own, no linear constraint is in the list.
\<close>

theorem quantities_order:
  "(\<forall>s1. thn (run_initial env) (run_register env (map fst (params env))) s = (Ok (), s1) \<longrightarrow>
      quantities s1 = spec_quantities env \<and>
      quantities (snd (run env s)) = spec_quantities env) \<and>
   quantities (snd (objfunc env dv s)) = quantities s \<and>
   quantities (snd (gradfunc env dv fd s)) = quantities s \<and>
   quantities (snd (run_script env g rs s)) = quantities s \<and>
   (distinct_responses env \<longrightarrow> set (spec_quantities env) \<inter> set (linear_names env) = {})"
proof (intro conjI allI impI)
  fix s1
  let ?pl = "map fst (params env)"
  let ?rest = "thn (run_instantiate env) (bnd (run_execute env) (run_finalize env ?pl))"
  assume a: "thn (run_initial env) (run_register env ?pl) s = (Ok (), s1)"
  then obtain s0 where "run_register env ?pl s0 = (Ok (), s1)"
    by (auto dest: thn_Ok)
  then show q1: "quantities s1 = spec_quantities env"
    by (rule run_register_quantities)
  have "run env s = ?rest s1"
    using a by (simp add: run_def thn_assoc [symmetric]) (simp add: thn_def bnd_def)
  then show "quantities (snd (run env s)) = spec_quantities env"
    using preservesD [OF preserves_quantities_rest, of env ?pl s1] q1 by simp
next
  show "quantities (snd (objfunc env dv s)) = quantities s"
    by (rule preservesD [OF preserves_objfunc]) simp_all
  show "quantities (snd (gradfunc env dv fd s)) = quantities s"
    by (rule preservesD [OF preserves_gradfunc]) simp_all
  show "quantities (snd (run_script env g rs s)) = quantities s"
    by (rule preservesD [OF preserves_run_script]) simp_all
next
  assume "distinct_responses env"
  then show "set (spec_quantities env) \<inter> set (linear_names env) = {}"
    by (rule quantities_no_linear)
qed

lemma ex_register_Ok:
  "fst (thn (run_initial ex_env) (run_register ex_env (map fst (params ex_env)))
          (init_driver ex_model)) = Ok ()"
  by (simp add: run_defs callback_defs ex_defs monad_defs)

theorem quantities_order_witness:
  "quantities (snd (run ex_env (init_driver ex_model))) = [''y'', ''con_eq'', ''con_in''] \<and>
   linear_names ex_env = [''lin''] \<and>
   set (spec_quantities ex_env) \<inter> set (linear_names ex_env) = {}"
proof (intro conjI)
  let ?m = "thn (run_initial ex_env) (run_register ex_env (map fst (params ex_env)))"
  obtain s1 where "?m (init_driver ex_model) = (Ok (), s1)"
    using ex_register_Ok by (cases "?m (init_driver ex_model)") auto
  then have "quantities (snd (run ex_env (init_driver ex_model))) = spec_quantities ex_env"
    using quantities_order [where env = ex_env and s = "init_driver ex_model"] by blast
  then show "quantities (snd (run ex_env (init_driver ex_model))) = [''y'', ''con_eq'', ''con_in'']"
    by (simp add: spec_quantities_def ex_nonlinear_names) (simp add: ex_env_def)
  show "linear_names ex_env = [''lin'']"
    by (simp add: linear_names_def ex_env_def)
  have "distinct_responses ex_env"
    by (simp add: distinct_responses_def ex_env_def)
  then show "set (spec_quantities ex_env) \<inter> set (linear_names ex_env) = {}"
    using quantities_order [where env = ex_env] by blast
qed

subsection \<open>Linear constraints\<close>

text \<open>
  Claim C4 on the small problem, whose constraint \<open>lin\<close> is linear. The run completes.
  The gradient for the linear constraints is asked for once, before the constraint groups
  are registered, but with the constraint's value \<open>[0]\<close> where its identifier belongs; no
  constraint group is registered for \<open>lin\<close>, so no Jacobian of it reaches the optimizer;
  the gradient callback asks for the other responses only.
\<close>

theorem run_linear_constraint:
  "fst (run ex_env (init_driver ex_model)) = Ok () \<and>
   linear_names ex_env = [''lin''] \<and>
   con_group_names (trace (snd (run ex_env (init_driver ex_model)))) = [''con_eq'', ''con_in''] \<and>
   calc_gradient_calls (trace (snd (run ex_env (init_driver ex_model)))) =
     [([''x''], [RValue [0]], ''dict''),
      ([''x''], [RName ''y'', RName ''con_eq'', RName ''con_in''], ''dict'')] \<and>
   lin_jacs (snd (run ex_env (init_driver ex_model))) = [(''<array>'', [(''x'', [[2]])])]"
  by (simp add: run_defs callback_defs ex_defs monad_defs linear_names_def)

subsection \<open>The gradient callback outside a run\<close>

text \<open>
  Claim C10. \<^verbatim>\<open>self._problem\<close> is \<^verbatim>\<open>None\<close> after \<^verbatim>\<open>__init__\<close> and again when the
  solving phase has returned; whenever it is \<^verbatim>\<open>None\<close>, the gradient callback does not
  raise: the attribute error is caught, its diagnostic is printed, and the callback
  returns the empty sensitivity dictionary with the fail flag \<open>1\<close>.
\<close>

theorem gradfunc_without_problem:
  "p_problem (init_driver m) = None \<and>
   (\<forall>sol s'. run_execute env s = (Ok sol, s') \<longrightarrow> p_problem s' = None) \<and>
   (p_problem s = None \<longrightarrow>
      gradfunc env dv fd s = (Ok ([], 1), print_exception (AttributeError ''calc_gradient'') s))"
proof (intro conjI allI impI)
  show "p_problem (init_driver m) = None"
    by (simp add: init_driver_def)
next
  fix sol s'
  assume "run_execute env s = (Ok sol, s')"
  then show "p_problem s' = None"
    by (auto simp: run_execute_def monad_defs split: prod.splits res.splits sum.splits)
next
  assume "p_problem s = None"
  then show "gradfunc env dv fd s = (Ok ([], 1), print_exception (AttributeError ''calc_gradient'') s)"
    by (simp add: gradfunc_def gradfunc_body_def)
qed

lemma ex_run_execute:
  "fst (run_execute ex_env ex_running) =
     Ok \<lparr>getDVs = [(''x'', [- 1])], optInform = [(''value'', 1)]\<rparr>"
  by (simp add: run_defs callback_defs ex_defs monad_defs)

theorem gradfunc_without_problem_witness:
  "p_problem (snd (run_execute ex_env ex_running)) = None \<and>
   gradfunc ex_env [(''x'', [2])] [(''y'', [8])] (init_driver ex_model) =
     (Ok ([], 1), print_exception (AttributeError ''calc_gradient'') (init_driver ex_model))"
proof (intro conjI)
  obtain s' where "run_execute ex_env ex_running =
      (Ok \<lparr>getDVs = [(''x'', [- 1])], optInform = [(''value'', 1)]\<rparr>, s')"
    using ex_run_execute by (cases "run_execute ex_env ex_running") auto
  then show "p_problem (snd (run_execute ex_env ex_running)) = None"
    using gradfunc_without_problem [where env = ex_env and s = ex_running] by simp
  show "gradfunc ex_env [(''x'', [2])] [(''y'', [8])] (init_driver ex_model) =
     (Ok ([], 1), print_exception (AttributeError ''calc_gradient'') (init_driver ex_model))"
    by (rule gradfunc_without_problem [THEN conjunct2, THEN conjunct2, THEN mp])
       (simp add: init_driver_def)
qed

end
